theory Spec2Isabelle
  imports Complex_Main "HOL-Library.AList"
begin

section \<open>Data model (src/types)\<close>

text \<open>
  The TypeScript interfaces \<^verbatim>\<open>AppSettings\<close>, \<^verbatim>\<open>TimeEntry\<close> and \<^verbatim>\<open>DailyStats\<close> become records.
  A \<^verbatim>\<open>Date\<close> is its instant in milliseconds since the epoch, the value that
  \<^verbatim>\<open>getTime()\<close> returns. Durations and the elapsed time are whole seconds (the
  elapsed time starts at 0 and grows by 1), so they are integers; sums of them are exact
  in JavaScript as long as they stay below \<open>2^53\<close>.
  \<^verbatim>\<open>Date | null\<close> and the optional \<^verbatim>\<open>userId?: string\<close> are options. The field
  \<^verbatim>\<open>type\<close> is the JavaScript string itself: the interface declares
  \<^verbatim>\<open>'work' | 'break'\<close>, the statistics compare it with \<^verbatim>\<open>'shortBreak'\<close> and
  \<^verbatim>\<open>'longBreak'\<close> as well. The fields \<^verbatim>\<open>id\<close>, \<^verbatim>\<open>type\<close> and \<^verbatim>\<open>notes\<close> carry a prime,
  their plain names being taken.
\<close>

record AppSettings =
  workDuration :: int
  breakDuration :: int
  autoStartBreaks :: bool
  autoStartWork :: bool
  notifications :: bool
  darkMode :: bool
  userId :: "string option"

record TimeEntry =
  id' :: int
  startTime :: int
  endTime :: "int option"
  duration :: int
  type' :: string
  notes' :: string
  userId :: "string option"

record DailyStats =
  date :: string
  totalWorkTime :: int
  totalBreakTime :: int
  sessions :: nat

section \<open>JavaScript numbers\<close>

text \<open>
  Two places of the code leave the integers: \<^verbatim>\<open>entry.duration / 60\<close> in the CSV export and
  the work to break ratio of the productivity score. JavaScript computes them in IEEE 754
  double precision: the result of \<^verbatim>\<open>/\<close>, \<^verbatim>\<open>*\<close> and \<^verbatim>\<open>-\<close> is the exact result rounded to
  the nearest double, ties to the even significand. A double is modelled by the rational
  it denotes, and \<open>toDouble\<close> is that rounding: for \<open>2^e \<le> |x| < 2^(e+1)\<close> the doubles are
  the multiples of \<open>2^(e-52)\<close>. The exponent range of doubles (overflow to infinity
  above \<open>2^1024\<close>, subnormals below \<open>2^-1022\<close>) is not modelled; the quotients and
  products below are far inside it.
\<close>

function bitLength :: "int \<Rightarrow> nat" where
  "bitLength n = (if n \<le> 0 then 0 else Suc (bitLength (n div 2)))"
  by pat_completeness auto
termination
  by (relation "measure nat") auto

declare bitLength.simps [simp del]

definition roundTiesToEven :: "rat \<Rightarrow> int" where
  "roundTiesToEven y =
     (let f = \<lfloor>y\<rfloor>; r = y - of_int f
      in if r < 1/2 then f else if r > 1/2 then f + 1 else if even f then f else f + 1)"

text \<open>
  The exponent \<open>e\<close> with \<open>2^e \<le> x < 2^(e+1)\<close>, for \<open>x > 0\<close>, from the bit lengths of the
  numerator and the denominator.
\<close>

definition binade :: "rat \<Rightarrow> int" where
  "binade x =
     (let (p, q) = quotient_of x;
          d = int (bitLength p) - int (bitLength q)
      in if power_int 2 d \<le> x then d else d - 1)"

definition toDouble :: "rat \<Rightarrow> rat" where
  "toDouble x =
     (if x = 0 then 0
      else let u = power_int 2 (binade \<bar>x\<bar> - 52)
           in sgn x * of_int (roundTiesToEven (\<bar>x\<bar> / u)) * u)"

text \<open>
  The operators \<^verbatim>\<open>/\<close>, \<^verbatim>\<open>*\<close> and \<^verbatim>\<open>-\<close> on doubles. The divisors in the code are the
  constants 60 and 4 and a break time that was tested to be positive, so division by
  zero does not arise.
\<close>

definition jsDivide :: "rat \<Rightarrow> rat \<Rightarrow> rat" where
  "jsDivide a b = toDouble (a / b)"

definition jsTimes :: "rat \<Rightarrow> rat \<Rightarrow> rat" where
  "jsTimes a b = toDouble (a * b)"

definition jsMinus :: "rat \<Rightarrow> rat \<Rightarrow> rat" where
  "jsMinus a b = toDouble (a - b)"

text \<open>
  The relative error of one rounding is at most \<open>2^-53\<close>.
\<close>

definition ulp53 :: rat where
  "ulp53 = 1 / 2 ^ 53"

text \<open>
  \<^verbatim>\<open>Math.round\<close> returns the integer nearest to its argument, the larger one at a tie.
\<close>

definition Math_round :: "rat \<Rightarrow> int" where
  "Math_round x = \<lfloor>x + 1/2\<rfloor>"

section \<open>Loading from local storage (App initializers)\<close>

text \<open>
  \<^verbatim>\<open>localStorage\<close> maps keys to strings; \<^verbatim>\<open>getItem\<close> returns null for a key that is not
  there. \<^verbatim>\<open>JSON.parse\<close> belongs to the platform and is a parameter: it returns the parsed
  value or throws a \<^verbatim>\<open>SyntaxError\<close>. The initializers have no \<^verbatim>\<open>try\<close>, so what it throws
  leaves the initializer; a thrown error is the left injection of the result.
  \<open>prefersDark\<close> is what \<^verbatim>\<open>window.matchMedia('(prefers-color-scheme: dark)').matches\<close> reads.
\<close>

datatype jsError = SyntaxError

type_synonym Storage = "string \<rightharpoonup> string"

definition defaultSettings :: "bool \<Rightarrow> string \<Rightarrow> AppSettings" where
  "defaultSettings prefersDark uid =
     \<lparr>workDuration = 25 * 60,
      breakDuration = 5 * 60,
      autoStartBreaks = False,
      autoStartWork = False,
      notifications = True,
      darkMode = prefersDark,
      userId = Some uid\<rparr>"

text \<open>
  \<^verbatim>\<open>saved ? JSON.parse(saved) : ...\<close>: null and the empty string are falsy.
\<close>

definition initTimeEntries ::
  "(string \<Rightarrow> jsError + TimeEntry list) \<Rightarrow> Storage \<Rightarrow> string \<Rightarrow> jsError + TimeEntry list" where
  "initTimeEntries JSON_parse localStorage uid =
     (case localStorage (''timeEntries_'' @ uid) of
        None \<Rightarrow> Inr []
      | Some saved \<Rightarrow> if saved = '''' then Inr [] else JSON_parse saved)"

definition initSettings ::
  "(string \<Rightarrow> jsError + AppSettings) \<Rightarrow> bool \<Rightarrow> Storage \<Rightarrow> string \<Rightarrow> jsError + AppSettings" where
  "initSettings JSON_parse prefersDark localStorage uid =
     (case localStorage (''settings_'' @ uid) of
        None \<Rightarrow> Inr (defaultSettings prefersDark uid)
      | Some saved \<Rightarrow>
          if saved = '''' then Inr (defaultSettings prefersDark uid) else JSON_parse saved)"

text \<open>
  The two outcomes of \<^verbatim>\<open>JSON.parse\<close>, for concrete runs: on a stored text that is not
  JSON, such as \<^verbatim>\<open>{\<close>, it throws; on the JSON text of a value \<open>v\<close> it returns \<open>v\<close>.
\<close>

definition parseThrows :: "string \<Rightarrow> jsError + 'a" where
  "parseThrows saved = Inl SyntaxError"

definition parseReturns :: "'a \<Rightarrow> string \<Rightarrow> jsError + 'a" where
  "parseReturns v saved = Inr v"

section \<open>The session state machine (App)\<close>

text \<open>
  The four \<^verbatim>\<open>useState\<close> cells of \<^verbatim>\<open>App\<close> that the timer handlers read and write.
\<close>

record AppState =
  isRunning :: bool
  currentSession :: "TimeEntry option"
  timeEntries :: "TimeEntry list"
  elapsedTime :: int

text \<open>
  \<^verbatim>\<open>App\<close> is a React function component. A handler is a closure made by one render:
  the names \<^verbatim>\<open>isRunning\<close>, \<^verbatim>\<open>currentSession\<close> and \<^verbatim>\<open>elapsedTime\<close> in its body are the
  constants of that render, and a state setter does not change them; it queues an
  update that is applied, in call order, before the next render. A functional update
  (\<^verbatim>\<open>setTimeEntries(prev => ...)\<close>, \<^verbatim>\<open>setElapsedTime(prevTime => ...)\<close>) receives the
  pending value instead.

  So every handler takes two states: \<open>snap\<close>, the render it closes over, which is what
  its reads see, and \<open>st\<close>, the pending state, which its setters transform. A handler
  called from another handler of the same render (\<^verbatim>\<open>startBreak\<close> calling
  \<^verbatim>\<open>stopTimer\<close>) gets the same \<open>snap\<close>. \<open>uid\<close> is the \<^verbatim>\<open>userId\<close> cell, \<open>now\<close> the
  instant that \<^verbatim>\<open>Date.now()\<close> and \<^verbatim>\<open>new Date()\<close> read during the run.
\<close>

definition newSession :: "string \<Rightarrow> int \<Rightarrow> TimeEntry" where
  "newSession uid now =
     \<lparr>id' = now, startTime = now, endTime = None, duration = 0, type' = ''work'',
      notes' = '''', userId = Some uid\<rparr>"

definition newBreak :: "string \<Rightarrow> int \<Rightarrow> TimeEntry" where
  "newBreak uid now =
     \<lparr>id' = now, startTime = now, endTime = None, duration = 0, type' = ''break'',
      notes' = '''', userId = Some uid\<rparr>"

definition startTimer :: "string \<Rightarrow> int \<Rightarrow> AppState \<Rightarrow> AppState \<Rightarrow> AppState" where
  "startTimer uid now snap st =
     (if \<not> isRunning snap then
        (let st1 = st\<lparr>isRunning := True\<rparr> in
         if currentSession snap = None
         then st1\<lparr>currentSession := Some (newSession uid now)\<rparr>
         else st1)
      else st)"

definition pauseTimer :: "AppState \<Rightarrow> AppState \<Rightarrow> AppState" where
  "pauseTimer snap st = st\<lparr>isRunning := False\<rparr>"

definition updatedSession :: "int \<Rightarrow> AppState \<Rightarrow> TimeEntry \<Rightarrow> TimeEntry" where
  "updatedSession now snap c = c\<lparr>endTime := Some now, duration := elapsedTime snap\<rparr>"

definition stopTimer :: "int \<Rightarrow> AppState \<Rightarrow> AppState \<Rightarrow> AppState" where
  "stopTimer now snap st =
     (case currentSession snap of
        Some c \<Rightarrow>
          st\<lparr>timeEntries := timeEntries st @ [updatedSession now snap c],
             currentSession := None,
             elapsedTime := 0,
             isRunning := False\<rparr>
      | None \<Rightarrow> st)"

definition resetTimer :: "AppState \<Rightarrow> AppState \<Rightarrow> AppState" where
  "resetTimer snap st = st\<lparr>isRunning := False, elapsedTime := 0, currentSession := None\<rparr>"

definition startBreak :: "string \<Rightarrow> int \<Rightarrow> AppState \<Rightarrow> AppState \<Rightarrow> AppState" where
  "startBreak uid now snap st =
     (let st1 = stopTimer now snap st in
      st1\<lparr>currentSession := Some (newBreak uid now), elapsedTime := 0, isRunning := True\<rparr>)"

definition addNoteToCurrentSession :: "string \<Rightarrow> AppState \<Rightarrow> AppState \<Rightarrow> AppState" where
  "addNoteToCurrentSession note snap st =
     (case currentSession snap of
        Some c \<Rightarrow> st\<lparr>currentSession := Some (c\<lparr>notes' := note\<rparr>)\<rparr>
      | None \<Rightarrow> st)"

text \<open>
  \<^verbatim>\<open>clearStatistics\<close>, once the user has confirmed the dialog.
\<close>

definition clearStatistics :: "AppState \<Rightarrow> AppState \<Rightarrow> AppState" where
  "clearStatistics snap st = st\<lparr>timeEntries := []\<rparr>"

text \<open>
  The interval of the timer effect exists only after a render with \<^verbatim>\<open>isRunning\<close>; its
  callback is the functional update \<^verbatim>\<open>prevTime => prevTime + 1\<close>.
\<close>

definition tick :: "AppState \<Rightarrow> AppState \<Rightarrow> AppState" where
  "tick snap st = (if isRunning snap then st\<lparr>elapsedTime := elapsedTime st + 1\<rparr> else st)"

text \<open>
  The completion effect of \<^verbatim>\<open>Timer\<close> (Timer.tsx, lines 45 to 86). Its dependency list
  holds the handlers, which are new closures at every render, so it runs after every
  render in which \<^verbatim>\<open>Timer\<close> is mounted, with the props of that render. The
  notification it may show changes no state and is left out.
\<close>

definition completion :: "AppSettings \<Rightarrow> string \<Rightarrow> int \<Rightarrow> AppState \<Rightarrow> AppState \<Rightarrow> AppState" where
  "completion settings uid now snap st =
     (case currentSession snap of
        None \<Rightarrow> st
      | Some c \<Rightarrow>
          if \<not> isRunning snap then st
          else
            (let targetDuration =
               (if type' c = ''work'' then workDuration settings else breakDuration settings)
             in
             if elapsedTime snap \<ge> targetDuration then
               (if type' c = ''work'' \<and> autoStartBreaks settings then
                  startBreak uid now snap (stopTimer now snap st)
                else if type' c = ''break'' \<and> autoStartWork settings then
                  startTimer uid now snap (stopTimer now snap st)
                else stopTimer now snap st)
             else st))"

text \<open>
  One event of the application: a handler of the current render \<open>s\<close> runs with \<open>s\<close> as
  its snapshot and as the state its updates start from, and the result is the state
  of the next render.
\<close>

datatype event =
  Start | Pause | Stop | Reset | StartBreak | AddNote string | ClearStatistics
  | Tick | Completion

fun step :: "AppSettings \<Rightarrow> string \<Rightarrow> int \<Rightarrow> event \<Rightarrow> AppState \<Rightarrow> AppState" where
  "step settings uid now Start s = startTimer uid now s s"
| "step settings uid now Pause s = pauseTimer s s"
| "step settings uid now Stop s = stopTimer now s s"
| "step settings uid now Reset s = resetTimer s s"
| "step settings uid now StartBreak s = startBreak uid now s s"
| "step settings uid now (AddNote note) s = addNoteToCurrentSession note s s"
| "step settings uid now ClearStatistics s = clearStatistics s s"
| "step settings uid now Tick s = tick s s"
| "step settings uid now Completion s = completion settings uid now s s"

text \<open>
  The first render: no session, not running, elapsed time 0, and the entry list that
  the initializer loaded.
\<close>

definition initialState :: "TimeEntry list \<Rightarrow> AppState" where
  "initialState es =
     \<lparr>isRunning = False, currentSession = None, timeEntries = es, elapsedTime = 0\<rparr>"

text \<open>
  The states the application can reach from the entry list \<open>es\<close> it loaded: any event,
  at any instant, under any settings (the settings tab can change them between events).
\<close>

inductive reachable :: "string \<Rightarrow> TimeEntry list \<Rightarrow> AppState \<Rightarrow> bool"
  for uid :: string and es :: "TimeEntry list" where
  reach_init: "reachable uid es (initialState es)"
| reach_step: "reachable uid es s \<Longrightarrow> reachable uid es (step settings uid now ev s)"

text \<open>
  A run of events, each with the instant at which it happens.
\<close>

fun run :: "AppSettings \<Rightarrow> string \<Rightarrow> (int \<times> event) list \<Rightarrow> AppState \<Rightarrow> AppState" where
  "run settings uid [] s = s"
| "run settings uid ((now, ev) # evs) s = run settings uid evs (step settings uid now ev s)"

section \<open>The statistics (Statistics.tsx)\<close>

datatype timeRange = Today | Week | Month | AllTime

text \<open>
  The three instants that the \<^verbatim>\<open>stats\<close> memo derives from \<^verbatim>\<open>new Date()\<close> with the
  calendar of the local time zone: local midnight, the start of the week and the first
  of the month. The calendar belongs to the platform; the instants are parameters.
\<close>

record RangeStarts =
  today :: int
  startOfWeek :: int
  startOfMonth :: int

record Stats =
  totalWorkTime :: int
  totalBreakTime :: int
  workSessions :: nat
  shortBreaks :: nat
  longBreaks :: nat
  dailyStats :: "DailyStats list"
  filteredEntries :: "TimeEntry list"
  mostProductiveDay :: "DailyStats option"

text \<open>
  \<^verbatim>\<open>App\<close> hands the statistics the entries of the current user.
\<close>

definition statisticsProps :: "string \<Rightarrow> TimeEntry list \<Rightarrow> TimeEntry list" where
  "statisticsProps uid es = filter (\<lambda>entry. userId entry = Some uid) es"

definition filterByRange :: "RangeStarts \<Rightarrow> timeRange \<Rightarrow> TimeEntry list \<Rightarrow> TimeEntry list" where
  "filterByRange starts timeRange es =
     (case timeRange of
        Today \<Rightarrow> filter (\<lambda>entry. startTime entry \<ge> today starts) es
      | Week \<Rightarrow> filter (\<lambda>entry. startTime entry \<ge> startOfWeek starts) es
      | Month \<Rightarrow> filter (\<lambda>entry. startTime entry \<ge> startOfMonth starts) es
      | AllTime \<Rightarrow> es)"

text \<open>
  \<^verbatim>\<open>.reduce((total, entry) => total + entry.duration, 0)\<close>
\<close>

definition sumDuration :: "TimeEntry list \<Rightarrow> int" where
  "sumDuration es = foldl (\<lambda>total entry. total + duration entry) 0 es"

definition isWork :: "TimeEntry \<Rightarrow> bool" where
  "isWork entry = (type' entry = ''work'')"

definition isBreak :: "TimeEntry \<Rightarrow> bool" where
  "isBreak entry = (type' entry = ''shortBreak'' \<or> type' entry = ''longBreak'')"

text \<open>
  \<^verbatim>\<open>entriesByDay\<close> is an object used as a dictionary from the date string to the entries
  of that day; \<^verbatim>\<open>Object.keys\<close> lists its keys in the order in which they were first
  written (for keys that are not array indices, which date strings are not). An
  association list in insertion order keeps both the lookup and that order.
  \<^verbatim>\<open>formatDate\<close> is imported from \<^verbatim>\<open>utils/timeUtils\<close>; it is a parameter.
\<close>

definition entriesByDay ::
  "(int \<Rightarrow> string) \<Rightarrow> TimeEntry list \<Rightarrow> (string \<times> TimeEntry list) list" where
  "entriesByDay formatDate displayedEntries =
     foldl (\<lambda>acc entry.
        let date = formatDate (startTime entry);
            acc1 = (if map_of acc date = None then AList.update date [] acc else acc)
        in AList.update date (the (map_of acc1 date) @ [entry]) acc1)
       [] displayedEntries"

definition dayStats :: "string \<times> TimeEntry list \<Rightarrow> DailyStats" where
  "dayStats = (\<lambda>(date, entries).
     \<lparr>date = date,
      totalWorkTime = sumDuration (filter isWork entries),
      totalBreakTime = sumDuration (filter isBreak entries),
      sessions = length (filter isWork entries)\<rparr>)"

text \<open>
  \<^verbatim>\<open>dailyStats.sort((a, b) => new Date(b.date).getTime() - new Date(a.date).getTime())\<close>:
  \<^verbatim>\<open>Array.prototype.sort\<close> is stable, and the comparator orders by the instant of the date
  string, larger first. \<open>dateTime\<close> stands for \<^verbatim>\<open>new Date(date).getTime()\<close>.
\<close>

definition sortNewestFirst :: "(string \<Rightarrow> int) \<Rightarrow> DailyStats list \<Rightarrow> DailyStats list" where
  "sortNewestFirst dateTime ds = sort_key (\<lambda>d. - dateTime (date d)) ds"

text \<open>
  \<^verbatim>\<open>reduce\<close> without an initial value starts from the first element.
\<close>

definition moreProductive :: "DailyStats \<Rightarrow> DailyStats \<Rightarrow> DailyStats" where
  "moreProductive prev current =
     (if DailyStats.totalWorkTime prev > DailyStats.totalWorkTime current then prev else current)"

definition mostProductive :: "DailyStats list \<Rightarrow> DailyStats option" where
  "mostProductive ds =
     (if length ds > 0 then Some (foldl moreProductive (hd ds) (tl ds)) else None)"

definition stats ::
  "(int \<Rightarrow> string) \<Rightarrow> (string \<Rightarrow> int) \<Rightarrow> RangeStarts \<Rightarrow> TimeEntry list \<Rightarrow> timeRange \<Rightarrow> bool
   \<Rightarrow> Stats" where
  "stats formatDate dateTime starts es timeRange showBreaks =
     (let filtered = filterByRange starts timeRange es;
          displayedEntries = (if showBreaks then filtered else filter isWork filtered);
          ds = sortNewestFirst dateTime (map dayStats (entriesByDay formatDate displayedEntries))
      in
      \<lparr>totalWorkTime = sumDuration (filter isWork filtered),
       totalBreakTime = sumDuration (filter isBreak filtered),
       workSessions = length (filter isWork filtered),
       shortBreaks = length (filter (\<lambda>entry. type' entry = ''shortBreak'') filtered),
       longBreaks = length (filter (\<lambda>entry. type' entry = ''longBreak'') filtered),
       dailyStats = ds,
       filteredEntries = displayedEntries,
       mostProductiveDay = mostProductive ds\<rparr>)"

subsection \<open>Productivity score\<close>

text \<open>
  The \<^verbatim>\<open>productivityScore\<close> memo, a function of \<^verbatim>\<open>stats.totalWorkTime\<close> and
  \<^verbatim>\<open>stats.totalBreakTime\<close>. The ratio and the score are doubles.
\<close>

definition workBreakRatio :: "int \<Rightarrow> int \<Rightarrow> rat" where
  "workBreakRatio W B =
     (if B > 0 then jsDivide (of_int W) (of_int B) else if W > 0 then 100 else 0)"

definition productivityScore :: "int \<Rightarrow> int \<Rightarrow> int" where
  "productivityScore W B =
     (if W = 0 \<and> B = 0 then 0
      else
        (let ratio = workBreakRatio W B;
             score =
               (if ratio \<ge> 4 \<and> ratio \<le> 6 then 100
                else if ratio > 6 then
                  jsMinus 100 (min (jsTimes (jsDivide (jsMinus ratio 6) 4) 100) 50)
                else if ratio < 4 \<and> ratio > 0 then
                  max (jsTimes (jsDivide ratio 4) 100) 50
                else 0)
         in Math_round score))"

subsection \<open>The score in exact arithmetic\<close>

text \<open>
  The score as the specification states it, for comparison with the code: the same
  piecewise formula with \<open>W / B\<close>, the division by 4, the multiplication by 100 and
  the subtractions taken exactly, in the rationals, and the result rounded to the nearest
  integer as \<^verbatim>\<open>Math.round\<close> does. Where the specification gives no case (ratio 0 with
  some break time and no work time) there is no value.
\<close>

definition exactRatio :: "int \<Rightarrow> int \<Rightarrow> rat" where
  "exactRatio W B = (if B > 0 then of_int W / of_int B else if W > 0 then 100 else 0)"

definition exactFormula :: "int \<Rightarrow> int \<Rightarrow> rat option" where
  "exactFormula W B =
     (if W = 0 \<and> B = 0 then Some 0
      else
        (let ratio = exactRatio W B
         in if 4 \<le> ratio \<and> ratio \<le> 6 then Some 100
            else if ratio > 6 then Some (100 - min (((ratio - 6) / 4) * 100) 50)
            else if 0 < ratio \<and> ratio < 4 then Some (max ((ratio / 4) * 100) 50)
            else None))"

definition exactScore :: "int \<Rightarrow> int \<Rightarrow> int option" where
  "exactScore W B = map_option Math_round (exactFormula W B)"

section \<open>CSV export (Statistics.tsx)\<close>

text \<open>
  \<^verbatim>\<open>exportToCSV\<close> maps over the prop \<^verbatim>\<open>timeEntries\<close> of the component, here \<open>entries\<close>. \<^verbatim>\<open>formatDate\<close>
  (from \<^verbatim>\<open>utils/timeUtils\<close>) and \<^verbatim>\<open>toLocaleTimeString\<close> (of the platform, depending on
  the locale) are parameters. \<^verbatim>\<open>Array.prototype.join\<close> puts the separator between the
  elements, turning a number into its decimal digits.
\<close>

definition headers :: "string list" where
  "headers = [''Date'', ''Start Time'', ''End Time'', ''Duration (minutes)'', ''Type'', ''Notes'']"

fun joinWith :: "string \<Rightarrow> string list \<Rightarrow> string" where
  "joinWith sep [] = ''''"
| "joinWith sep [x] = x"
| "joinWith sep (x # y # zs) = x @ sep @ joinWith sep (y # zs)"

function digits :: "int \<Rightarrow> string" where
  "digits n =
     (if n < 10 then [''0123456789'' ! nat n]
      else digits (n div 10) @ [''0123456789'' ! nat (n mod 10)])"
  by pat_completeness auto
termination
  by (relation "measure nat") auto

declare digits.simps [simp del]

text \<open>
  The string of an integral number (below \<open>10^21\<close>, where JavaScript switches to the
  exponent form).
\<close>

definition numberToString :: "int \<Rightarrow> string" where
  "numberToString n = (if n < 0 then ''-'' @ digits (- n) else digits n)"

text \<open>
  \<^verbatim>\<open>entry.notes.replace(/,/g, ';')\<close>
\<close>

definition replaceCommas :: "string \<Rightarrow> string" where
  "replaceCommas text = map (\<lambda>c. if c = CHR '','' then CHR '';'' else c) text"

definition csvRow :: "(int \<Rightarrow> string) \<Rightarrow> (int \<Rightarrow> string) \<Rightarrow> TimeEntry \<Rightarrow> string list" where
  "csvRow formatDate toLocaleTimeString entry =
     [formatDate (startTime entry),
      toLocaleTimeString (startTime entry),
      (case endTime entry of Some t \<Rightarrow> toLocaleTimeString t | None \<Rightarrow> ''''),
      numberToString (Math_round (jsDivide (of_int (duration entry)) 60)),
      type' entry,
      replaceCommas (notes' entry)]"

definition csvData ::
  "(int \<Rightarrow> string) \<Rightarrow> (int \<Rightarrow> string) \<Rightarrow> TimeEntry list \<Rightarrow> string list list" where
  "csvData formatDate toLocaleTimeString entries =
     map (csvRow formatDate toLocaleTimeString) entries"

text \<open>
  The lines of the file, and the file: the lines joined by a line feed.
\<close>

definition csvLines ::
  "(int \<Rightarrow> string) \<Rightarrow> (int \<Rightarrow> string) \<Rightarrow> TimeEntry list \<Rightarrow> string list" where
  "csvLines formatDate toLocaleTimeString entries =
     joinWith '','' headers
       # map (joinWith '','') (csvData formatDate toLocaleTimeString entries)"

definition exportToCSV ::
  "(int \<Rightarrow> string) \<Rightarrow> (int \<Rightarrow> string) \<Rightarrow> TimeEntry list \<Rightarrow> string" where
  "exportToCSV formatDate toLocaleTimeString entries =
     joinWith [CHR 0x0A] (csvLines formatDate toLocaleTimeString entries)"

section \<open>Invariants of the state machine\<close>

text \<open>
  The current session is the one cell \<^verbatim>\<open>currentSession\<close>, apart from the list
  \<^verbatim>\<open>timeEntries\<close>. The invariant: it is either empty, and then the timer is idle (not
  running, elapsed time 0), or an entry whose \<^verbatim>\<open>endTime\<close> is still null.
\<close>

definition sessionInvariant :: "AppState \<Rightarrow> bool" where
  "sessionInvariant s =
     (case currentSession s of
        None \<Rightarrow> \<not> isRunning s \<and> elapsedTime s = 0
      | Some c \<Rightarrow> endTime c = None)"

text \<open>
  The entries of the list are loaded ones or finalized ones.
\<close>

definition entriesFinalized :: "TimeEntry list \<Rightarrow> AppState \<Rightarrow> bool" where
  "entriesFinalized es s = list_all (\<lambda>e. e \<in> set es \<or> endTime e \<noteq> None) (timeEntries s)"

text \<open>
  The two type strings the handlers write: \<^verbatim>\<open>startTimer\<close> writes \<^verbatim>\<open>'work'\<close>,
  \<^verbatim>\<open>startBreak\<close> writes \<^verbatim>\<open>'break'\<close>, and nothing else writes the field.
\<close>

definition producedType :: "TimeEntry \<Rightarrow> bool" where
  "producedType entry = (type' entry = ''work'' \<or> type' entry = ''break'')"

definition producedTypes :: "AppState \<Rightarrow> bool" where
  "producedTypes s =
     (list_all producedType (timeEntries s)
      \<and> (case currentSession s of None \<Rightarrow> True | Some c \<Rightarrow> producedType c))"

section \<open>Rounding to a double\<close>

lemma bitLength_bounds:
  "0 < n \<Longrightarrow> 2 ^ (bitLength n - 1) \<le> n \<and> n < 2 ^ bitLength n"
proof (induction n rule: bitLength.induct)
  case (1 n)
  show ?case
  proof (cases "n div 2 \<le> 0")
    case True
    with 1 have "n = 1" by simp
    then show ?thesis by (simp add: bitLength.simps [of 1] bitLength.simps [of 0])
  next
    case False
    then have pos: "0 < n div 2" by simp
    with 1 have ih: "2 ^ (bitLength (n div 2) - 1) \<le> n div 2" "n div 2 < 2 ^ bitLength (n div 2)"
      by auto
    have bl: "bitLength n = Suc (bitLength (n div 2))"
      using 1 by (subst bitLength.simps) simp
    have b1: "0 < bitLength (n div 2)"
      using pos by (subst bitLength.simps) simp
    define a :: int where "a = 2 ^ (bitLength (n div 2) - 1)"
    from b1 have pw: "(2::int) ^ bitLength (n div 2) = 2 * a"
      by (cases "bitLength (n div 2)") (simp_all add: a_def)
    with ih have "a \<le> n div 2" "n div 2 < 2 * a"
      by (simp_all add: a_def)
    then have "2 * a \<le> n" "n < 2 * (2 * a)"
      by arith+
    moreover have "(2::int) ^ (bitLength n - 1) = 2 * a" "(2::int) ^ bitLength n = 2 * (2 * a)"
      using pw by (simp_all add: bl)
    ultimately show ?thesis by simp
  qed
qed

lemma two_powi_add: "power_int (2::rat) (a + b) = power_int 2 a * power_int 2 b"
  by (rule power_int_add) simp

text \<open>
  \<open>binade x\<close> is the exponent of the binade of \<open>x\<close>.
\<close>

lemma binade_bounds:
  assumes "0 < x"
  shows "power_int 2 (binade x) \<le> x" and "x < power_int 2 (binade x + 1)"
proof -
  obtain p q where pq: "quotient_of x = (p, q)" by (cases "quotient_of x")
  then have q: "0 < q" by (rule quotient_of_denom_pos)
  from pq have x: "x = of_int p / of_int q" by (rule quotient_of_div)
  with assms q have p: "0 < p" by (simp add: zero_less_divide_iff)
  define bp where "bp = bitLength p"
  define bq where "bq = bitLength q"
  define d where "d = int bp - int bq"
  from bitLength_bounds [OF p] have
    p1: "2 ^ (bp - 1) \<le> p" and p2: "p < 2 ^ bp" by (simp_all add: bp_def)
  from bitLength_bounds [OF q] have
    q1: "2 ^ (bq - 1) \<le> q" and q2: "q < 2 ^ bq" by (simp_all add: bq_def)
  have bp0: "0 < bp" using p2 p by (cases bp) auto
  have bq0: "0 < bq" using q2 q by (cases bq) auto
  have P1: "(2::rat) ^ (bp - 1) \<le> of_int p"
  proof -
    from p1 have "(of_int (2 ^ (bp - 1))::rat) \<le> of_int p" by (simp only: of_int_le_iff)
    then show ?thesis by simp
  qed
  have P2: "(of_int p::rat) < 2 ^ bp"
  proof -
    from p2 have "(of_int p::rat) < of_int (2 ^ bp)" by (simp only: of_int_less_iff)
    then show ?thesis by simp
  qed
  have Q1: "(2::rat) ^ (bq - 1) \<le> of_int q"
  proof -
    from q1 have "(of_int (2 ^ (bq - 1))::rat) \<le> of_int q" by (simp only: of_int_le_iff)
    then show ?thesis by simp
  qed
  have Q2: "(of_int q::rat) < 2 ^ bq"
  proof -
    from q2 have "(of_int q::rat) < of_int (2 ^ bq)" by (simp only: of_int_less_iff)
    then show ?thesis by simp
  qed
  have qpos: "(0::rat) < of_int q" using q by simp
  have up: "x < power_int 2 (d + 1)"
  proof -
    have "of_int p * (2::rat) ^ (bq - 1) < 2 ^ bp * of_int q"
      using P2 Q1 p q by (intro mult_less_le_imp_less) auto
    also have "(2::rat) ^ bp = power_int 2 (d + 1) * 2 ^ (bq - 1)"
    proof -
      have "int bp = (d + 1) + int (bq - 1)" using bq0 by (simp add: d_def)
      then have "power_int (2::rat) (int bp) = power_int 2 (d + 1) * power_int 2 (int (bq - 1))"
        by (simp only: two_powi_add)
      then show ?thesis by (simp only: power_int_of_nat)
    qed
    finally have "of_int p * (2::rat) ^ (bq - 1) < power_int 2 (d + 1) * of_int q * 2 ^ (bq - 1)"
      by (simp add: mult_ac)
    then have "of_int p < power_int (2::rat) (d + 1) * of_int q" by simp
    then show ?thesis unfolding x using qpos by (simp add: pos_divide_less_eq)
  qed
  have low: "power_int 2 (d - 1) \<le> x"
  proof -
    have A: "(2::rat) ^ (bp - 1) * of_int q \<le> of_int p * 2 ^ bq"
      using P1 Q2 p q by (intro mult_mono) auto
    have B: "(2::rat) ^ (bp - 1) = power_int 2 (d - 1) * 2 ^ bq"
    proof -
      have "int (bp - 1) = (d - 1) + int bq" using bp0 by (simp add: d_def)
      then have "power_int (2::rat) (int (bp - 1)) = power_int 2 (d - 1) * power_int 2 (int bq)"
        by (simp only: two_powi_add)
      then show ?thesis by (simp only: power_int_of_nat)
    qed
    from A have "(power_int 2 (d - 1) * of_int q) * (2::rat) ^ bq \<le> of_int p * 2 ^ bq"
      unfolding B by (simp only: mult_ac)
    then have "power_int (2::rat) (d - 1) * of_int q \<le> of_int p"
      by (simp only: mult_le_cancel_right) simp
    then show ?thesis unfolding x using qpos by (simp add: pos_le_divide_eq)
  qed
  have b: "binade x = (if power_int 2 d \<le> x then d else d - 1)"
    by (simp add: binade_def pq bp_def bq_def d_def Let_def)
  show "power_int 2 (binade x) \<le> x"
    using low by (simp add: b)
  show "x < power_int 2 (binade x + 1)"
    using up by (auto simp: b not_le)
qed

lemma roundTiesToEven_bounds:
  "\<lfloor>y\<rfloor> \<le> roundTiesToEven y" "roundTiesToEven y \<le> \<lfloor>y\<rfloor> + 1"
  by (simp_all add: roundTiesToEven_def Let_def)

lemma toDouble_pos:
  assumes "0 < x"
  shows "toDouble x =
    of_int (roundTiesToEven (x / power_int 2 (binade x - 52))) * power_int 2 (binade x - 52)"
  using assms by (simp add: toDouble_def Let_def)

text \<open>
  Minutes from seconds: for a duration from 0 to below \<open>2^52\<close> seconds,
  \<^verbatim>\<open>Math.round(duration / 60)\<close>, with the quotient rounded to a double, is the number of
  minutes nearest to the duration, a half rounding up.
\<close>

lemma Math_round_minutes:
  assumes "0 \<le> d" and "d < 2 ^ 52"
  shows "Math_round (jsDivide (of_int d) 60) = (d + 30) div 60"
proof (cases "d = 0")
  case True
  have "\<lfloor>1 / 2 :: rat\<rfloor> = 0" by (simp add: floor_eq_iff)
  with True show ?thesis by (simp add: jsDivide_def toDouble_def Math_round_def)
next
  case False
  with assms have dpos: "0 < d" by simp
  define x :: rat where "x = of_int d / 60"
  define e where "e = binade x"
  define n where "n = (d + 30) div 60"
  have xpos: "0 < x" using dpos by (simp add: x_def)
  have "x < 2 ^ 47"
  proof -
    from assms(2) have "(of_int d :: rat) < of_int (2 ^ 52)" by (simp only: of_int_less_iff)
    then show ?thesis by (simp add: x_def)
  qed
  then have "x < power_int 2 47" by simp
  with binade_bounds(1) [OF xpos] have "power_int (2::rat) e < power_int 2 47"
    unfolding e_def by (rule le_less_trans)
  then have "e < 47" by (rule power_int_le_imp_less_exp [rotated]) simp_all
  define k where "k = nat (51 - e)"
  have k: "5 \<le> k" and ek: "e - 52 = - (int (Suc k))"
    using \<open>e < 47\<close> by (simp_all add: k_def)
  define M :: int where "M = 2 ^ k"
  have M: "2 ^ 5 \<le> M"
    unfolding M_def using k by (intro power_increasing) simp_all
  then have Mpos: "0 < M" by simp
  have u: "power_int (2::rat) (e - 52) = 1 / of_int (2 * M)"
  proof -
    have "power_int (2::rat) (- int (Suc k)) = 1 / power_int 2 (int (Suc k))"
      by (rule power_int_minus_divide)
    also have "power_int (2::rat) (int (Suc k)) = 2 ^ Suc k"
      by (rule power_int_of_nat)
    finally show ?thesis unfolding ek by (simp add: M_def)
  qed
  define y :: rat where "y = x / power_int 2 (e - 52)"
  have y: "y = of_int (2 * d * M) / 60"
    by (simp add: y_def u x_def)
  define m where "m = roundTiesToEven y"
  have td: "toDouble x = of_int m / of_int (2 * M)"
    by (simp add: toDouble_pos [OF xpos] m_def y_def u flip: e_def)
  have n1: "60 * n \<le> d + 30" and n2: "d + 30 \<le> 60 * n + 59"
    unfolding n_def by presburger+
  have low: "(2 * n - 1) * M \<le> m"
  proof -
    have "(2 * n - 1) * 30 \<le> d" using n1 by simp
    then have "((2 * n - 1) * 30) * (2 * M) \<le> d * (2 * M)"
      using Mpos by (intro mult_right_mono) simp_all
    then have "((2 * n - 1) * M) * 60 \<le> 2 * d * M" by (simp add: algebra_simps)
    then have "(of_int (((2 * n - 1) * M) * 60) :: rat) \<le> of_int (2 * d * M)"
      by (simp only: of_int_le_iff)
    then have "(of_int ((2 * n - 1) * M) :: rat) * 60 \<le> of_int (2 * d * M)"
      by (simp only: of_int_mult of_int_numeral)
    then have "(of_int ((2 * n - 1) * M) :: rat) \<le> y"
      unfolding y by (simp only: pos_le_divide_eq zero_less_numeral)
    then have "(2 * n - 1) * M \<le> \<lfloor>y\<rfloor>" by (simp only: le_floor_iff)
    with roundTiesToEven_bounds(1) [of y] show ?thesis unfolding m_def by linarith
  qed
  have up: "m \<le> (2 * n + 1) * M - 1"
  proof -
    have "2 * d \<le> 120 * n + 58" using n2 by simp
    then have "(2 * d) * M \<le> (120 * n + 58) * M"
      using Mpos by (intro mult_right_mono) simp_all
    moreover have "60 < 2 * M" using M by simp
    ultimately have "2 * d * M < ((2 * n + 1) * M - 1) * 60" by (simp add: algebra_simps)
    then have "(of_int (2 * d * M) :: rat) < of_int (((2 * n + 1) * M - 1) * 60)"
      by (simp only: of_int_less_iff)
    then have "(of_int (2 * d * M) :: rat) < of_int ((2 * n + 1) * M - 1) * 60"
      by (simp only: of_int_mult of_int_numeral)
    then have "y < of_int ((2 * n + 1) * M - 1)"
      unfolding y by (simp only: pos_divide_less_eq zero_less_numeral)
    then have "\<lfloor>y\<rfloor> < (2 * n + 1) * M - 1" by (simp only: floor_less_iff)
    with roundTiesToEven_bounds(2) [of y] show ?thesis unfolding m_def by linarith
  qed
  have "Math_round (toDouble x) = \<lfloor>(of_int (m + M) :: rat) / of_int (2 * M)\<rfloor>"
    using Mpos by (simp add: Math_round_def td field_simps)
  also have "\<dots> = (m + M) div (2 * M)"
    by (rule floor_divide_of_int_eq)
  also have "\<dots> = n"
  proof (rule int_div_pos_eq [where r = "m + M - 2 * M * n"])
    show "m + M = 2 * M * n + (m + M - 2 * M * n)" by simp
    show "0 \<le> m + M - 2 * M * n" using low by (simp add: algebra_simps)
    show "m + M - 2 * M * n < 2 * M" using up by (simp add: algebra_simps)
  qed
  finally show ?thesis by (simp add: jsDivide_def x_def n_def)
qed

text \<open>
  Rounding to the nearest double: the error is at most half a unit in the last place.
\<close>

lemma roundTiesToEven_error: "\<bar>of_int (roundTiesToEven y) - y\<bar> \<le> 1 / 2"
proof -
  have "of_int \<lfloor>y\<rfloor> \<le> y" "y < of_int \<lfloor>y\<rfloor> + 1" by linarith+
  then show ?thesis
    by (auto simp: roundTiesToEven_def Let_def abs_le_iff)
qed

lemma roundTiesToEven_of_int: "roundTiesToEven (of_int n) = n"
  by (simp add: roundTiesToEven_def Let_def)

lemma toDouble_error:
  assumes "0 < x"
  shows "\<bar>toDouble x - x\<bar> \<le> x / 2 ^ 53"
proof -
  define e where "e = binade x"
  define u :: rat where "u = power_int 2 (e - 52)"
  define y where "y = x / u"
  have upos: "0 < u" by (simp add: u_def)
  have td: "toDouble x = of_int (roundTiesToEven y) * u"
    by (simp add: toDouble_pos [OF assms] y_def u_def e_def)
  have x: "x = y * u" using upos by (simp add: y_def)
  have "toDouble x - x = (of_int (roundTiesToEven y) - y) * u"
    unfolding td by (subst x) (simp only: left_diff_distrib)
  then have "\<bar>toDouble x - x\<bar> = \<bar>of_int (roundTiesToEven y) - y\<bar> * \<bar>u\<bar>"
    by (simp only: abs_mult)
  also have "\<bar>u\<bar> = u" using upos by simp
  finally have "\<bar>toDouble x - x\<bar> = \<bar>of_int (roundTiesToEven y) - y\<bar> * u" .
  also have "\<dots> \<le> (1 / 2) * u"
    using roundTiesToEven_error [of y] upos by (intro mult_right_mono) simp_all
  also have "(1 / 2) * u = power_int 2 e / 2 ^ 53"
  proof -
    have "power_int (2::rat) e = power_int 2 (e - 52) * power_int 2 52"
      using two_powi_add [of "e - 52" 52] by simp
    then show ?thesis by (simp add: u_def)
  qed
  also have "\<dots> \<le> x / 2 ^ 53"
    using binade_bounds(1) [OF assms] by (simp add: e_def divide_right_mono)
  finally show ?thesis .
qed

lemma ulp53_bounds: "0 < ulp53" "1000 * ulp53 < 1"
  by (simp_all add: ulp53_def)

lemma toDouble_error_le:
  assumes "0 < x" and "x \<le> k"
  shows "\<bar>toDouble x - x\<bar> \<le> k * ulp53"
proof -
  have "x / 2 ^ 53 \<le> k / 2 ^ 53" using assms(2) by (simp add: divide_right_mono)
  with toDouble_error [OF assms(1)] show ?thesis by (simp add: ulp53_def)
qed

lemma two_powi_less_D:
  assumes "power_int (2::rat) a < power_int 2 b"
  shows "a < b"
proof (rule ccontr)
  assume "\<not> a < b"
  then have "b \<le> a" by simp
  then have "power_int (2::rat) b \<le> power_int 2 a"
    by (intro power_int_increasing) simp_all
  with assms show False by simp
qed

lemma binade_unique:
  assumes "0 < x" and "power_int 2 e \<le> x" and "x < power_int 2 (e + 1)"
  shows "binade x = e"
proof -
  note b = binade_bounds [OF assms(1)]
  have "power_int (2::rat) (binade x) < power_int 2 (e + 1)"
    using b(1) assms(3) by (rule le_less_trans)
  then have 1: "binade x < e + 1"
    by (rule two_powi_less_D)
  have "power_int (2::rat) e < power_int 2 (binade x + 1)"
    using assms(2) b(2) by (rule le_less_trans)
  then have 2: "e < binade x + 1"
    by (rule two_powi_less_D)
  from 1 2 show ?thesis by simp
qed

lemma binade_mono:
  assumes "0 < x" and "x \<le> c"
  shows "binade x \<le> binade c"
proof -
  from assms have c: "0 < c" by simp
  have "power_int (2::rat) (binade x) \<le> x" by (rule binade_bounds(1) [OF assms(1)])
  also note assms(2)
  also have "c < power_int 2 (binade c + 1)" by (rule binade_bounds(2) [OF c])
  finally have "power_int (2::rat) (binade x) < power_int 2 (binade c + 1)" .
  then have "binade x < binade c + 1"
    by (rule two_powi_less_D)
  then show ?thesis by simp
qed

text \<open>The double of a positive number lies in the closed binade of the number.\<close>

lemma toDouble_binade:
  assumes "0 < x"
  shows "power_int 2 (binade x) \<le> toDouble x" and "toDouble x \<le> power_int 2 (binade x + 1)"
proof -
  define e where "e = binade x"
  define u :: rat where "u = power_int 2 (e - 52)"
  define y where "y = x / u"
  have upos: "0 < u" by (simp add: u_def)
  have td: "toDouble x = of_int (roundTiesToEven y) * u"
    by (simp add: toDouble_pos [OF assms] y_def u_def e_def)
  have lo: "power_int (2::rat) e = 2 ^ 52 * u"
  proof -
    have "power_int (2::rat) (52 + (e - 52)) = power_int 2 52 * power_int 2 (e - 52)"
      by (rule two_powi_add)
    moreover have "52 + (e - 52) = e" by simp
    ultimately have "power_int (2::rat) e = power_int 2 52 * power_int 2 (e - 52)"
      by (simp only:)
    then show ?thesis by (simp add: u_def)
  qed
  have hi: "power_int (2::rat) (e + 1) = 2 ^ 53 * u"
  proof -
    have "power_int (2::rat) (53 + (e - 52)) = power_int 2 53 * power_int 2 (e - 52)"
      by (rule two_powi_add)
    moreover have "53 + (e - 52) = e + 1" by simp
    ultimately have "power_int (2::rat) (e + 1) = power_int 2 53 * power_int 2 (e - 52)"
      by (simp only:)
    then show ?thesis by (simp add: u_def)
  qed
  have "2 ^ 52 * u \<le> x" "x < 2 ^ 53 * u"
    using binade_bounds [OF assms] by (simp_all add: lo hi flip: e_def)
  then have y: "of_int (2 ^ 52) \<le> y" "y < of_int (2 ^ 53)"
    using upos by (simp_all add: y_def pos_le_divide_eq pos_divide_less_eq)
  from y(1) have "2 ^ 52 \<le> \<lfloor>y\<rfloor>" by (simp only: le_floor_iff)
  with roundTiesToEven_bounds(1) [of y] have "2 ^ 52 \<le> roundTiesToEven y" by linarith
  then have "(of_int (2 ^ 52) :: rat) \<le> of_int (roundTiesToEven y)" by (simp only: of_int_le_iff)
  then have "2 ^ 52 * u \<le> of_int (roundTiesToEven y) * u"
    using upos by (intro mult_right_mono) simp_all
  then show "power_int 2 (binade x) \<le> toDouble x"
    by (simp add: td lo flip: e_def)
  from y(2) have "\<lfloor>y\<rfloor> < 2 ^ 53" by (simp only: floor_less_iff)
  with roundTiesToEven_bounds(2) [of y] have "roundTiesToEven y \<le> 2 ^ 53" by linarith
  then have "(of_int (roundTiesToEven y) :: rat) \<le> of_int (2 ^ 53)" by (simp only: of_int_le_iff)
  then have "of_int (roundTiesToEven y) * u \<le> 2 ^ 53 * u"
    using upos by (intro mult_right_mono) simp_all
  then show "toDouble x \<le> power_int 2 (binade x + 1)"
    by (simp add: td hi flip: e_def)
qed

lemma toDouble_positive: "0 < x \<Longrightarrow> 0 < toDouble x"
  using toDouble_binade(1) [of x] by (rule_tac less_le_trans [of _ "power_int 2 (binade x)"]) simp_all

text \<open>
  Rounding does not cross a double: for a positive double \<open>c\<close>, numbers up to \<open>c\<close> round
  to doubles up to \<open>c\<close>, and numbers from \<open>c\<close> on to doubles from \<open>c\<close> on.
\<close>

lemma toDouble_le_double:
  assumes "0 < x" and "x \<le> c" and "toDouble c = c"
  shows "toDouble x \<le> c"
proof -
  from assms have c: "0 < c" by simp
  define e where "e = binade c"
  define u :: rat where "u = power_int 2 (e - 52)"
  have upos: "0 < u" by (simp add: u_def)
  define N where "N = roundTiesToEven (c / u)"
  have cN: "c = of_int N * u"
    using assms(3) by (simp add: toDouble_pos [OF c] N_def u_def e_def)
  have le: "binade x \<le> e" unfolding e_def by (rule binade_mono [OF assms(1,2)])
  show ?thesis
  proof (cases "binade x = e")
    case True
    define y where "y = x / u"
    have td: "toDouble x = of_int (roundTiesToEven y) * u"
      by (simp add: toDouble_pos [OF assms(1)] y_def u_def True)
    have "y \<le> of_int N"
      using assms(2) upos by (simp add: y_def cN pos_divide_le_eq)
    have "roundTiesToEven y \<le> N"
    proof (cases "y = of_int N")
      case True
      then show ?thesis by (simp add: roundTiesToEven_of_int)
    next
      case False
      with \<open>y \<le> of_int N\<close> have "y < of_int N" by simp
      then have "\<lfloor>y\<rfloor> < N" by (simp only: floor_less_iff)
      with roundTiesToEven_bounds(2) [of y] show ?thesis by linarith
    qed
    then have "(of_int (roundTiesToEven y) :: rat) \<le> of_int N" by (simp only: of_int_le_iff)
    then have "of_int (roundTiesToEven y) * u \<le> of_int N * u"
      using upos by (intro mult_right_mono) simp_all
    then show ?thesis by (simp add: td cN)
  next
    case False
    with le have "binade x + 1 \<le> e" by simp
    then have "power_int (2::rat) (binade x + 1) \<le> power_int 2 e"
      by (intro power_int_increasing) simp_all
    with toDouble_binade(2) [OF assms(1)] binade_bounds(1) [OF c]
    show ?thesis by (simp add: e_def)
  qed
qed

lemma toDouble_ge_double:
  assumes "0 < c" and "c \<le> x" and "toDouble c = c"
  shows "c \<le> toDouble x"
proof -
  from assms have x: "0 < x" by simp
  define e where "e = binade c"
  define u :: rat where "u = power_int 2 (e - 52)"
  have upos: "0 < u" by (simp add: u_def)
  define N where "N = roundTiesToEven (c / u)"
  have cN: "c = of_int N * u"
    using assms(3) by (simp add: toDouble_pos [OF assms(1)] N_def u_def e_def)
  have le: "e \<le> binade x" unfolding e_def by (rule binade_mono [OF assms(1,2)])
  show ?thesis
  proof (cases "binade x = e")
    case True
    define y where "y = x / u"
    have td: "toDouble x = of_int (roundTiesToEven y) * u"
      by (simp add: toDouble_pos [OF x] y_def u_def True)
    have "of_int N \<le> y"
      using assms(2) upos by (simp add: y_def cN pos_le_divide_eq)
    then have "N \<le> \<lfloor>y\<rfloor>" by (simp only: le_floor_iff)
    with roundTiesToEven_bounds(1) [of y] have "N \<le> roundTiesToEven y" by linarith
    then have "(of_int N :: rat) \<le> of_int (roundTiesToEven y)" by (simp only: of_int_le_iff)
    then have "of_int N * u \<le> of_int (roundTiesToEven y) * u"
      using upos by (intro mult_right_mono) simp_all
    then show ?thesis by (simp add: td cN)
  next
    case False
    with le have "e + 1 \<le> binade x" by simp
    then have "power_int (2::rat) (e + 1) \<le> power_int 2 (binade x)"
      by (intro power_int_increasing) simp_all
    with toDouble_binade(1) [OF x] binade_bounds(2) [OF assms(1)]
    show ?thesis by (simp add: e_def)
  qed
qed

text \<open>
  Some numbers that are doubles.
\<close>

lemma doubles:
  "toDouble 2 = 2" "toDouble 4 = 4" "toDouble 6 = 6" "toDouble 8 = 8" "toDouble (1 / 2) = 1 / 2"
  "toDouble 1 = 1" "toDouble 50 = 50" "toDouble 100 = 100"
  by code_simp+

section \<open>Loading the entries and the settings\<close>

text \<open>
  C2, as the code has it. For every content of the local storage and whatever
  \<^verbatim>\<open>JSON.parse\<close> computes: when the record is absent (or the empty string) the initializer
  returns the default, the empty list or the default settings; when the stored text
  parses, it returns the parsed value; when \<^verbatim>\<open>JSON.parse\<close> throws on the stored text,
  the initializer throws that error: it does not fall back to the default.
\<close>

theorem C2_load_or_default_or_throw:
  "(localStorage (''timeEntries_'' @ uid) = None \<or> localStorage (''timeEntries_'' @ uid) = Some ''''
      \<longrightarrow> initTimeEntries parseEntries localStorage uid = Inr [])
   \<and> (localStorage (''timeEntries_'' @ uid) = Some saved \<and> saved \<noteq> ''''
        \<and> parseEntries saved = Inr es
      \<longrightarrow> initTimeEntries parseEntries localStorage uid = Inr es)
   \<and> (localStorage (''timeEntries_'' @ uid) = Some saved \<and> saved \<noteq> ''''
        \<and> parseEntries saved = Inl err
      \<longrightarrow> initTimeEntries parseEntries localStorage uid = Inl err)
   \<and> (localStorage (''settings_'' @ uid) = None \<or> localStorage (''settings_'' @ uid) = Some ''''
      \<longrightarrow> initSettings parseSettings prefersDark localStorage uid =
          Inr \<lparr>workDuration = 1500, breakDuration = 300, autoStartBreaks = False,
               autoStartWork = False, notifications = True, darkMode = prefersDark,
               userId = Some uid\<rparr>)
   \<and> (localStorage (''settings_'' @ uid) = Some saved' \<and> saved' \<noteq> ''''
        \<and> parseSettings saved' = Inr settings
      \<longrightarrow> initSettings parseSettings prefersDark localStorage uid = Inr settings)
   \<and> (localStorage (''settings_'' @ uid) = Some saved' \<and> saved' \<noteq> ''''
        \<and> parseSettings saved' = Inl err'
      \<longrightarrow> initSettings parseSettings prefersDark localStorage uid = Inl err')"
  by (auto simp: initTimeEntries_def initSettings_def defaultSettings_def)

theorem C2_load_or_default_or_throw_witness:
  \<open>initTimeEntries (parseReturns []) Map.empty ''u'' = Inr []
   \<and> initTimeEntries (parseReturns []) [''timeEntries_u'' \<mapsto> ''[]''] ''u'' = Inr []
   \<and> initTimeEntries parseThrows [''timeEntries_u'' \<mapsto> ''{''] ''u'' = Inl SyntaxError
   \<and> initSettings parseThrows False Map.empty ''u'' =
       Inr \<lparr>workDuration = 1500, breakDuration = 300, autoStartBreaks = False,
            autoStartWork = False, notifications = True, darkMode = False,
            userId = Some ''u''\<rparr>
   \<and> initSettings
        (parseReturns
          \<lparr>workDuration = 60, breakDuration = 30, autoStartBreaks = True,
           autoStartWork = False, notifications = True, darkMode = False,
           userId = Some ''u''\<rparr>)
        False
        [''settings_u'' \<mapsto>
          ''{"workDuration":60,"breakDuration":30,"autoStartBreaks":true,"autoStartWork":false,"notifications":true,"darkMode":false,"userId":"u"}'']
        ''u'' =
       Inr \<lparr>workDuration = 60, breakDuration = 30, autoStartBreaks = True,
            autoStartWork = False, notifications = True, darkMode = False,
            userId = Some ''u''\<rparr>
   \<and> initSettings parseThrows False [''settings_u'' \<mapsto> ''{''] ''u'' = Inl SyntaxError\<close>
proof -
  let ?json = \<open>''{"workDuration":60,"breakDuration":30,"autoStartBreaks":true,"autoStartWork":false,"notifications":true,"darkMode":false,"userId":"u"}''\<close>
  let ?v = "\<lparr>workDuration = 60, breakDuration = 30, autoStartBreaks = True,
           autoStartWork = False, notifications = True, darkMode = False,
           userId = Some ''u''\<rparr>"
  let ?none = "Map.empty :: Storage"
  let ?good = "[''timeEntries_u'' \<mapsto> ''[]'']"
  let ?bad = "[''timeEntries_u'' \<mapsto> ''{'']"
  let ?sgood = "[''settings_u'' \<mapsto> ?json]"
  let ?sbad = "[''settings_u'' \<mapsto> ''{'']"
  have a: "?none (''timeEntries_'' @ ''u'') = None \<or> ?none (''timeEntries_'' @ ''u'') = Some ''''"
    by simp
  have b: "?good (''timeEntries_'' @ ''u'') = Some ''[]'' \<and> ''[]'' \<noteq> ''''
      \<and> parseReturns ([]::TimeEntry list) ''[]'' = Inr []"
    by (simp add: parseReturns_def)
  have c: "?bad (''timeEntries_'' @ ''u'') = Some ''{'' \<and> ''{'' \<noteq> ''''
      \<and> (parseThrows ''{'' :: jsError + TimeEntry list) = Inl SyntaxError"
    by (simp add: parseThrows_def)
  have d: "?none (''settings_'' @ ''u'') = None \<or> ?none (''settings_'' @ ''u'') = Some ''''"
    by simp
  have e: "?sgood (''settings_'' @ ''u'') = Some ?json \<and> ?json \<noteq> ''''
      \<and> parseReturns ?v ?json = Inr ?v"
    by (simp add: parseReturns_def)
  have f: "?sbad (''settings_'' @ ''u'') = Some ''{'' \<and> ''{'' \<noteq> ''''
      \<and> (parseThrows ''{'' :: jsError + AppSettings) = Inl SyntaxError"
    by (simp add: parseThrows_def)
  from C2_load_or_default_or_throw [where localStorage = ?none and uid = "''u''"
      and parseEntries = "parseReturns []"] a
  have 1: "initTimeEntries (parseReturns []) ?none ''u'' = Inr []"
    by blast
  from C2_load_or_default_or_throw [where localStorage = ?good and uid = "''u''"
      and parseEntries = "parseReturns []" and saved = "''[]''" and es = "[]"] b
  have 2: "initTimeEntries (parseReturns []) ?good ''u'' = Inr []"
    by blast
  from C2_load_or_default_or_throw [where localStorage = ?bad and uid = "''u''"
      and parseEntries = parseThrows and saved = "''{''" and err = SyntaxError] c
  have 3: "initTimeEntries parseThrows ?bad ''u'' = Inl SyntaxError"
    by blast
  from C2_load_or_default_or_throw [where localStorage = ?none and uid = "''u''"
      and parseSettings = parseThrows and prefersDark = False] d
  have 4: "initSettings parseThrows False ?none ''u'' =
       Inr \<lparr>workDuration = 1500, breakDuration = 300, autoStartBreaks = False,
            autoStartWork = False, notifications = True, darkMode = False,
            userId = Some ''u''\<rparr>"
    by blast
  from C2_load_or_default_or_throw [where localStorage = ?sgood and uid = "''u''"
      and parseSettings = "parseReturns ?v" and prefersDark = False and saved' = ?json
      and settings = ?v] e
  have 5: "initSettings (parseReturns ?v) False ?sgood ''u'' = Inr ?v"
    by blast
  from C2_load_or_default_or_throw [where localStorage = ?sbad and uid = "''u''"
      and parseSettings = parseThrows and prefersDark = False and saved' = "''{''"
      and err' = SyntaxError] f
  have 6: "initSettings parseThrows False ?sbad ''u'' = Inl SyntaxError"
    by blast
  from 1 2 3 4 5 6 show ?thesis by blast
qed

text \<open>
  The stored text \<^verbatim>\<open>{\<close> is not JSON, so \<^verbatim>\<open>JSON.parse\<close> throws on it. Loading the
  entries then throws instead of returning the empty list, and loading the settings
  throws instead of returning the default settings.
\<close>

theorem C2_unparseable_counterexample:
  "initTimeEntries parseThrows [''timeEntries_u'' \<mapsto> ''{''] ''u'' = Inl SyntaxError
   \<and> initTimeEntries parseThrows [''timeEntries_u'' \<mapsto> ''{''] ''u'' \<noteq> Inr []
   \<and> initSettings parseThrows False [''settings_u'' \<mapsto> ''{''] ''u'' = Inl SyntaxError
   \<and> initSettings parseThrows False [''settings_u'' \<mapsto> ''{''] ''u''
       \<noteq> Inr (defaultSettings False ''u'')"
  by (simp add: initTimeEntries_def initSettings_def parseThrows_def)

section \<open>Reset\<close>

text \<open>
  C7. From every state, with any elapsed time, and whatever the pending state is,
  \<^verbatim>\<open>resetTimer\<close> leaves no current session, elapsed time 0 and a stopped timer, and
  the entry list is the one it found: nothing is appended.
\<close>

theorem C7_reset_discards:
  "currentSession (resetTimer snap st) = None
   \<and> elapsedTime (resetTimer snap st) = 0
   \<and> \<not> isRunning (resetTimer snap st)
   \<and> timeEntries (resetTimer snap st) = timeEntries st
   \<and> step settings uid now Reset s =
       \<lparr>isRunning = False, currentSession = None, timeEntries = timeEntries s,
        elapsedTime = 0\<rparr>"
  by (simp add: resetTimer_def)

section \<open>Starting a break\<close>

text \<open>
  C5. From every state, \<^verbatim>\<open>startBreak\<close> appends the session of that state, finalized
  with the elapsed time of that state, to the entry list (nothing when there is no
  session), makes one new entry of type \<^verbatim>\<open>'break'\<close> the current session and leaves the
  timer running at elapsed time 0. Called right after \<^verbatim>\<open>startTimer\<close> it appends that
  work session with duration 0; called on the first render (idle) it appends nothing.
\<close>

theorem C5_startBreak_finalizes_then_breaks:
  "step settings uid now StartBreak s =
     \<lparr>isRunning = True,
      currentSession = Some (newBreak uid now),
      timeEntries = timeEntries s @
        (case currentSession s of
           None \<Rightarrow> []
         | Some c \<Rightarrow> [c\<lparr>endTime := Some now, duration := elapsedTime s\<rparr>]),
      elapsedTime = 0\<rparr>
   \<and> type' (newBreak uid now) = ''break''
   \<and> endTime (newBreak uid now) = None
   \<and> timeEntries (step settings uid now StartBreak (step settings uid t0 Start (initialState es)))
       = es @ [\<lparr>id' = t0, startTime = t0, endTime = Some now, duration = 0, type' = ''work'',
                notes' = '''', userId = Some uid\<rparr>]
   \<and> timeEntries (step settings uid now StartBreak (initialState es)) = es"
  by (cases "currentSession s")
    (simp_all add: startBreak_def stopTimer_def updatedSession_def newBreak_def newSession_def
      startTimer_def initialState_def)

section \<open>The current session\<close>

lemma sessionInvariant_step:
  "sessionInvariant s \<Longrightarrow> sessionInvariant (step settings uid now ev s)"
  by (cases ev; cases "currentSession s")
    (auto simp: sessionInvariant_def startTimer_def pauseTimer_def stopTimer_def resetTimer_def
      startBreak_def addNoteToCurrentSession_def clearStatistics_def tick_def completion_def
      newSession_def newBreak_def Let_def)

lemma entriesFinalized_step:
  "entriesFinalized es s \<Longrightarrow> entriesFinalized es (step settings uid now ev s)"
  by (cases ev; cases "currentSession s")
    (auto simp: entriesFinalized_def startTimer_def pauseTimer_def stopTimer_def resetTimer_def
      startBreak_def addNoteToCurrentSession_def clearStatistics_def tick_def completion_def
      updatedSession_def Let_def)

lemma reachable_sessionInvariant: "reachable uid es s \<Longrightarrow> sessionInvariant s"
proof (induction rule: reachable.induct)
  case reach_init
  show ?case by (simp add: sessionInvariant_def initialState_def)
next
  case (reach_step s settings now ev)
  then show ?case by (simp add: sessionInvariant_step)
qed

lemma reachable_entriesFinalized: "reachable uid es s \<Longrightarrow> entriesFinalized es s"
proof (induction rule: reachable.induct)
  case reach_init
  show ?case by (simp add: entriesFinalized_def initialState_def list_all_iff)
next
  case (reach_step s settings now ev)
  then show ?case by (simp add: entriesFinalized_step)
qed

text \<open>
  C9. Every operation (start, pause, stop, reset, startBreak, addNote, tick, and also the
  completion effect and clearing the statistics) preserves the invariant of the current
  session, from any state that has it. Hence in every reachable state the current session
  is null with the timer idle, or an entry with \<^verbatim>\<open>endTime\<close> null; and when the loaded
  entries all have an \<^verbatim>\<open>endTime\<close>, the current session is not an element of the entry
  list.
\<close>

theorem C9_current_session_invariant:
  "(sessionInvariant s \<longrightarrow> sessionInvariant (step settings uid now ev s))
   \<and> (reachable uid es r \<longrightarrow>
        sessionInvariant r
        \<and> (list_all (\<lambda>e. endTime e \<noteq> None) es \<longrightarrow>
             (case currentSession r of None \<Rightarrow> True | Some c \<Rightarrow> c \<notin> set (timeEntries r))))"
proof (intro conjI impI)
  assume "sessionInvariant s"
  then show "sessionInvariant (step settings uid now ev s)"
    by (rule sessionInvariant_step)
next
  assume "reachable uid es r"
  then show "sessionInvariant r"
    by (rule reachable_sessionInvariant)
next
  assume r: "reachable uid es r" and es: "list_all (\<lambda>e. endTime e \<noteq> None) es"
  show "case currentSession r of None \<Rightarrow> True | Some c \<Rightarrow> c \<notin> set (timeEntries r)"
  proof (cases "currentSession r")
    case None
    then show ?thesis by simp
  next
    case (Some c)
    from r have "sessionInvariant r" by (rule reachable_sessionInvariant)
    with Some have c: "endTime c = None" by (simp add: sessionInvariant_def)
    from r have "entriesFinalized es r" by (rule reachable_entriesFinalized)
    with es have "\<forall>e\<in>set (timeEntries r). endTime e \<noteq> None"
      by (auto simp: entriesFinalized_def list_all_iff)
    with c have "c \<notin> set (timeEntries r)" by auto
    with Some show ?thesis by simp
  qed
qed

theorem C9_current_session_invariant_witness:
  "sessionInvariant (initialState [])
   \<and> sessionInvariant (step (defaultSettings False ''u'') ''u'' 5 Start (initialState []))
   \<and> reachable ''u''
        [\<lparr>id' = 1, startTime = 1, endTime = Some 3, duration = 2, type' = ''work'',
          notes' = '''', userId = Some ''u''\<rparr>]
        (step (defaultSettings False ''u'') ''u'' 5 Start
          (initialState
            [\<lparr>id' = 1, startTime = 1, endTime = Some 3, duration = 2, type' = ''work'',
              notes' = '''', userId = Some ''u''\<rparr>]))
   \<and> currentSession (step (defaultSettings False ''u'') ''u'' 5 Start
          (initialState
            [\<lparr>id' = 1, startTime = 1, endTime = Some 3, duration = 2, type' = ''work'',
              notes' = '''', userId = Some ''u''\<rparr>]))
       = Some (newSession ''u'' 5)
   \<and> newSession ''u'' 5 \<notin> set (timeEntries (step (defaultSettings False ''u'') ''u'' 5 Start
          (initialState
            [\<lparr>id' = 1, startTime = 1, endTime = Some 3, duration = 2, type' = ''work'',
              notes' = '''', userId = Some ''u''\<rparr>])))"
proof -
  let ?e = "\<lparr>id' = 1, startTime = 1, endTime = Some 3, duration = 2, type' = ''work'',
             notes' = '''', userId = Some ''u''\<rparr>"
  let ?r = "step (defaultSettings False ''u'') ''u'' 5 Start (initialState [?e])"
  have i: "sessionInvariant (initialState [])"
    by (simp add: sessionInvariant_def initialState_def)
  have r: "reachable ''u'' [?e] ?r"
    by (rule reach_step) (rule reach_init)
  have es: "list_all (\<lambda>e. endTime e \<noteq> None) [?e]"
    by simp
  have c: "currentSession ?r = Some (newSession ''u'' 5)"
    by (simp add: startTimer_def initialState_def)
  note inst = C9_current_session_invariant [of "initialState []"
      "defaultSettings False ''u''" "''u''" 5 Start "[?e]" ?r]
  from inst i have
    "sessionInvariant (step (defaultSettings False ''u'') ''u'' 5 Start (initialState []))"
    by blast
  moreover from inst r es have
    "case currentSession ?r of None \<Rightarrow> True | Some c \<Rightarrow> c \<notin> set (timeEntries ?r)"
    by blast
  with c have "newSession ''u'' 5 \<notin> set (timeEntries ?r)"
    by simp
  ultimately show ?thesis using i r c by blast
qed

section \<open>Auto-completion\<close>

text \<open>
  What one run of the completion effect does on a running work session whose elapsed
  time has reached \<^verbatim>\<open>workDuration\<close>, with \<^verbatim>\<open>autoStartBreaks\<close> on. The effect calls
  \<^verbatim>\<open>stopTimer()\<close> and then \<^verbatim>\<open>startBreak()\<close>, which calls \<^verbatim>\<open>stopTimer()\<close> again. Both
  calls are closures of the same render, so the second one still reads the work session
  in \<^verbatim>\<open>currentSession\<close> and queues a second \<^verbatim>\<open>setTimeEntries(prev => [...prev, updatedSession])\<close>.
\<close>

lemma completion_work_autoStartBreaks:
  assumes "currentSession s = Some c" and "isRunning s" and "type' c = ''work''"
    and "autoStartBreaks settings" and "workDuration settings \<le> elapsedTime s"
  shows "step settings uid now Completion s =
     \<lparr>isRunning = True,
      currentSession = Some (newBreak uid now),
      timeEntries = timeEntries s @
        [c\<lparr>endTime := Some now, duration := elapsedTime s\<rparr>,
         c\<lparr>endTime := Some now, duration := elapsedTime s\<rparr>],
      elapsedTime = 0\<rparr>"
  using assms
  by (simp add: completion_def startBreak_def stopTimer_def updatedSession_def)

text \<open>
  C4. A run that crosses the threshold: \<^verbatim>\<open>workDuration\<close> is 2 seconds, \<^verbatim>\<open>autoStartBreaks\<close>
  is on, the entry list is empty; the user starts the timer at instant 0, and two ticks
  follow, the completion effect running after each render, then a third tick. At the
  second tick the effect fires. Afterwards the timer is running in one new break session
  and the third tick appends nothing more, but the entry list holds the finalized work
  session twice, not once.
\<close>

theorem C4_completion_appends_work_entry_twice:
  "run \<lparr>workDuration = 2, breakDuration = 300, autoStartBreaks = True, autoStartWork = False,
        notifications = True, darkMode = False, userId = Some ''u''\<rparr> ''u''
     [(0, Start), (0, Completion), (1000, Tick), (1000, Completion), (2000, Tick),
      (2000, Completion), (2000, Completion), (3000, Tick), (3000, Completion)]
     (initialState [])
   = \<lparr>isRunning = True,
      currentSession = Some (newBreak ''u'' 2000),
      timeEntries =
        [\<lparr>id' = 0, startTime = 0, endTime = Some 2000, duration = 2, type' = ''work'',
          notes' = '''', userId = Some ''u''\<rparr>,
         \<lparr>id' = 0, startTime = 0, endTime = Some 2000, duration = 2, type' = ''work'',
          notes' = '''', userId = Some ''u''\<rparr>],
      elapsedTime = 1\<rparr>"
  by (simp add: startTimer_def tick_def completion_def startBreak_def stopTimer_def
      updatedSession_def newSession_def newBreak_def initialState_def)

section \<open>Totals and the break flag\<close>

lemma foldl_add_duration:
  "foldl (\<lambda>total entry. total + duration entry) a es = a + sum_list (map duration es)"
  by (induction es arbitrary: a) simp_all

lemma sumDuration_sum_list: "sumDuration es = sum_list (map duration es)"
  by (simp add: sumDuration_def foldl_add_duration)

text \<open>
  C8. For every entry list, time range and range starts, the totals and the counts are
  the same with the breaks shown as with the breaks hidden, and they are the sums and
  counts over all the entries in the time range. The flag decides the display list
  (all the entries in the range, or the work entries among them), from which the days
  are grouped.
\<close>

theorem C8_totals_ignore_showBreaks:
  "Stats.totalWorkTime (stats formatDate dateTime starts es timeRange True)
     = Stats.totalWorkTime (stats formatDate dateTime starts es timeRange False)
   \<and> Stats.totalBreakTime (stats formatDate dateTime starts es timeRange True)
     = Stats.totalBreakTime (stats formatDate dateTime starts es timeRange False)
   \<and> workSessions (stats formatDate dateTime starts es timeRange True)
     = workSessions (stats formatDate dateTime starts es timeRange False)
   \<and> shortBreaks (stats formatDate dateTime starts es timeRange True)
     = shortBreaks (stats formatDate dateTime starts es timeRange False)
   \<and> longBreaks (stats formatDate dateTime starts es timeRange True)
     = longBreaks (stats formatDate dateTime starts es timeRange False)
   \<and> Stats.totalWorkTime (stats formatDate dateTime starts es timeRange showBreaks)
     = sum_list (map duration
         (filter (\<lambda>e. type' e = ''work'') (filterByRange starts timeRange es)))
   \<and> Stats.totalBreakTime (stats formatDate dateTime starts es timeRange showBreaks)
     = sum_list (map duration
         (filter (\<lambda>e. type' e = ''shortBreak'' \<or> type' e = ''longBreak'')
           (filterByRange starts timeRange es)))
   \<and> workSessions (stats formatDate dateTime starts es timeRange showBreaks)
     = length (filter (\<lambda>e. type' e = ''work'') (filterByRange starts timeRange es))
   \<and> shortBreaks (stats formatDate dateTime starts es timeRange showBreaks)
     = length (filter (\<lambda>e. type' e = ''shortBreak'') (filterByRange starts timeRange es))
   \<and> longBreaks (stats formatDate dateTime starts es timeRange showBreaks)
     = length (filter (\<lambda>e. type' e = ''longBreak'') (filterByRange starts timeRange es))
   \<and> filteredEntries (stats formatDate dateTime starts es timeRange True)
     = filterByRange starts timeRange es
   \<and> filteredEntries (stats formatDate dateTime starts es timeRange False)
     = filter (\<lambda>e. type' e = ''work'') (filterByRange starts timeRange es)
   \<and> dailyStats (stats formatDate dateTime starts es timeRange showBreaks)
     = sortNewestFirst dateTime (map dayStats (entriesByDay formatDate
         (filteredEntries (stats formatDate dateTime starts es timeRange showBreaks))))"
  by (simp add: stats_def Let_def sumDuration_sum_list isWork_def [abs_def] isBreak_def [abs_def])

section \<open>The most productive day\<close>

lemma moreProductive_last_maximum:
  "\<exists>i<length (d # ds).
      foldl moreProductive d ds = (d # ds) ! i
      \<and> (\<forall>j<length (d # ds).
            DailyStats.totalWorkTime ((d # ds) ! j) \<le> DailyStats.totalWorkTime ((d # ds) ! i))
      \<and> (\<forall>j<length (d # ds). i < j \<longrightarrow>
            DailyStats.totalWorkTime ((d # ds) ! j) < DailyStats.totalWorkTime ((d # ds) ! i))"
proof (induction ds rule: rev_induct)
  case Nil
  show ?case by simp
next
  case (snoc x ds)
  let ?w = "DailyStats.totalWorkTime"
  define xs where "xs = d # ds"
  define n where "n = length xs"
  have app: "d # (ds @ [x]) = xs @ [x]" by (simp add: xs_def)
  from snoc obtain i where i: "i < n"
    and r: "foldl moreProductive d ds = xs ! i"
    and le: "\<forall>j<n. ?w (xs ! j) \<le> ?w (xs ! i)"
    and lt: "\<forall>j<n. i < j \<longrightarrow> ?w (xs ! j) < ?w (xs ! i)"
    unfolding xs_def [symmetric] n_def [symmetric] by blast
  have len: "length (xs @ [x]) = Suc n" by (simp add: n_def)
  have old: "(xs @ [x]) ! j = xs ! j" if "j < n" for j
    using that by (simp add: nth_append n_def)
  have new: "(xs @ [x]) ! n = x"
    by (simp add: n_def)
  have fold: "foldl moreProductive d (ds @ [x]) = moreProductive (xs ! i) x"
    by (simp add: r)
  show ?case
  proof (cases "?w (xs ! i) > ?w x")
    case True
    have "foldl moreProductive d (ds @ [x]) = (xs @ [x]) ! i"
      unfolding fold using True i by (simp add: old moreProductive_def)
    moreover have "\<forall>j<Suc n. ?w ((xs @ [x]) ! j) \<le> ?w ((xs @ [x]) ! i)"
      using True le i by (auto simp: less_Suc_eq old new)
    moreover have "\<forall>j<Suc n. i < j \<longrightarrow> ?w ((xs @ [x]) ! j) < ?w ((xs @ [x]) ! i)"
      using True lt i by (auto simp: less_Suc_eq old new)
    moreover have "i < Suc n" using i by simp
    ultimately show ?thesis unfolding app len by blast
  next
    case False
    have "foldl moreProductive d (ds @ [x]) = (xs @ [x]) ! n"
      unfolding fold using False by (simp add: new moreProductive_def)
    moreover have "\<forall>j<Suc n. ?w ((xs @ [x]) ! j) \<le> ?w ((xs @ [x]) ! n)"
    proof (intro allI impI)
      fix j assume "j < Suc n"
      then consider "j < n" | "j = n" by fastforce
      then show "?w ((xs @ [x]) ! j) \<le> ?w ((xs @ [x]) ! n)"
      proof cases
        case 1
        with le have "?w (xs ! j) \<le> ?w (xs ! i)" by blast
        with False 1 show ?thesis by (simp add: old new)
      next
        case 2
        then show ?thesis by simp
      qed
    qed
    moreover have "\<forall>j<Suc n. n < j \<longrightarrow> ?w ((xs @ [x]) ! j) < ?w ((xs @ [x]) ! n)"
      by simp
    ultimately show ?thesis unfolding app len by blast
  qed
qed

text \<open>
  C1, as the code has it. With no days, \<^verbatim>\<open>mostProductiveDay\<close> is null. Otherwise it is a
  day of the list with the maximum \<^verbatim>\<open>totalWorkTime\<close>, and every day iterated after it has
  strictly less: among days with the same maximal \<^verbatim>\<open>totalWorkTime\<close>, the one encountered
  last in the iteration order is returned (the reducer keeps \<^verbatim>\<open>prev\<close> only when it is
  strictly greater).
\<close>

theorem C1_mostProductiveDay_is_last_maximum:
  "mostProductive [] = None
   \<and> mostProductiveDay (stats formatDate dateTime starts es timeRange showBreaks)
       = mostProductive (dailyStats (stats formatDate dateTime starts es timeRange showBreaks))
   \<and> (ds \<noteq> [] \<longrightarrow>
        (\<exists>i<length ds.
           mostProductive ds = Some (ds ! i)
           \<and> (\<forall>j<length ds.
                 DailyStats.totalWorkTime (ds ! j) \<le> DailyStats.totalWorkTime (ds ! i))
           \<and> (\<forall>j<length ds. i < j \<longrightarrow>
                 DailyStats.totalWorkTime (ds ! j) < DailyStats.totalWorkTime (ds ! i))))"
proof (intro conjI impI)
  show "mostProductive [] = None"
    by (simp add: mostProductive_def)
  show "mostProductiveDay (stats formatDate dateTime starts es timeRange showBreaks)
       = mostProductive (dailyStats (stats formatDate dateTime starts es timeRange showBreaks))"
    by (simp add: stats_def Let_def)
next
  assume "ds \<noteq> []"
  then obtain d rest where ds: "ds = d # rest" by (cases ds) auto
  have "mostProductive ds = Some (foldl moreProductive d rest)"
    by (simp add: ds mostProductive_def)
  with moreProductive_last_maximum [of d rest] show
    "\<exists>i<length ds.
       mostProductive ds = Some (ds ! i)
       \<and> (\<forall>j<length ds. DailyStats.totalWorkTime (ds ! j) \<le> DailyStats.totalWorkTime (ds ! i))
       \<and> (\<forall>j<length ds. i < j \<longrightarrow>
             DailyStats.totalWorkTime (ds ! j) < DailyStats.totalWorkTime (ds ! i))"
    unfolding ds by simp
qed

text \<open>
  Two days with the same \<^verbatim>\<open>totalWorkTime\<close>, the newer one first as the sort leaves them:
  the day returned is the second one, not the one encountered first.
\<close>

theorem C1_tie_counterexample:
  "mostProductive
     [\<lparr>date = ''2025-03-02'', totalWorkTime = 600, totalBreakTime = 0, sessions = 1\<rparr>,
      \<lparr>date = ''2025-03-01'', totalWorkTime = 600, totalBreakTime = 0, sessions = 2\<rparr>]
   = Some \<lparr>date = ''2025-03-01'', totalWorkTime = 600, totalBreakTime = 0, sessions = 2\<rparr>
   \<and> mostProductive
     [\<lparr>date = ''2025-03-02'', totalWorkTime = 600, totalBreakTime = 0, sessions = 1\<rparr>,
      \<lparr>date = ''2025-03-01'', totalWorkTime = 600, totalBreakTime = 0, sessions = 2\<rparr>]
   \<noteq> Some \<lparr>date = ''2025-03-02'', totalWorkTime = 600, totalBreakTime = 0, sessions = 1\<rparr>"
  by (simp add: mostProductive_def moreProductive_def)

theorem C1_mostProductiveDay_is_last_maximum_witness:
  "[\<lparr>date = ''2025-03-02'', totalWorkTime = 600, totalBreakTime = 0, sessions = 1\<rparr>,
    \<lparr>date = ''2025-03-01'', totalWorkTime = 600, totalBreakTime = 0, sessions = 2\<rparr>] \<noteq> []
   \<and> (\<exists>i<length
          [\<lparr>date = ''2025-03-02'', totalWorkTime = 600, totalBreakTime = 0, sessions = 1\<rparr>,
           \<lparr>date = ''2025-03-01'', totalWorkTime = 600, totalBreakTime = 0, sessions = 2\<rparr>].
         mostProductive
          [\<lparr>date = ''2025-03-02'', totalWorkTime = 600, totalBreakTime = 0, sessions = 1\<rparr>,
           \<lparr>date = ''2025-03-01'', totalWorkTime = 600, totalBreakTime = 0, sessions = 2\<rparr>]
         = Some
          ([\<lparr>date = ''2025-03-02'', totalWorkTime = 600, totalBreakTime = 0, sessions = 1\<rparr>,
            \<lparr>date = ''2025-03-01'', totalWorkTime = 600, totalBreakTime = 0, sessions = 2\<rparr>]
           ! i))"
proof -
  let ?ds = "[\<lparr>date = ''2025-03-02'', totalWorkTime = 600, totalBreakTime = 0, sessions = 1\<rparr>,
              \<lparr>date = ''2025-03-01'', totalWorkTime = 600, totalBreakTime = 0, sessions = 2\<rparr>]"
  have ne: "?ds \<noteq> []" by simp
  from C1_mostProductiveDay_is_last_maximum [where ds = ?ds] ne
  have "\<exists>i<length ?ds. mostProductive ?ds = Some (?ds ! i)
          \<and> (\<forall>j<length ?ds.
                DailyStats.totalWorkTime (?ds ! j) \<le> DailyStats.totalWorkTime (?ds ! i))
          \<and> (\<forall>j<length ?ds. i < j \<longrightarrow>
                DailyStats.totalWorkTime (?ds ! j) < DailyStats.totalWorkTime (?ds ! i))"
    by blast
  then have "\<exists>i<length ?ds. mostProductive ?ds = Some (?ds ! i)"
    by blast
  with ne show ?thesis by blast
qed

section \<open>Entry types produced and entry types counted\<close>

lemma producedTypes_step:
  "producedTypes s \<Longrightarrow> producedTypes (step settings uid now ev s)"
  by (cases ev; cases "currentSession s")
    (auto simp: producedTypes_def producedType_def startTimer_def pauseTimer_def stopTimer_def
      resetTimer_def startBreak_def addNoteToCurrentSession_def clearStatistics_def tick_def
      completion_def updatedSession_def newSession_def newBreak_def Let_def)

lemma reachable_producedTypes:
  "reachable uid es s \<Longrightarrow> list_all producedType es \<Longrightarrow> producedTypes s"
proof (induction rule: reachable.induct)
  case reach_init
  then show ?case by (simp add: producedTypes_def initialState_def)
next
  case (reach_step s settings now ev)
  then show ?case by (simp add: producedTypes_step)
qed

lemma producedType_no_break:
  assumes "list_all producedType es"
  shows "filter isBreak es = []"
    and "filter (\<lambda>entry. type' entry = ''shortBreak'') es = []"
    and "filter (\<lambda>entry. type' entry = ''longBreak'') es = []"
  using assms by (auto simp: list_all_iff filter_empty_conv producedType_def isBreak_def)

lemma producedType_filter: "list_all producedType es \<Longrightarrow> list_all producedType (filter P es)"
  by (simp add: list_all_iff)

lemma producedType_filterByRange:
  "list_all producedType es \<Longrightarrow> list_all producedType (filterByRange starts timeRange es)"
  by (cases timeRange) (simp_all add: filterByRange_def producedType_filter)

text \<open>
  C10. In every state reached from a loaded list whose entries have type \<^verbatim>\<open>'work'\<close> or
  \<^verbatim>\<open>'break'\<close> (the empty list of a first start, or a list the application saved
  earlier), every entry of the list and the current session have type \<^verbatim>\<open>'work'\<close> or
  \<^verbatim>\<open>'break'\<close>. The statistics count break time and breaks only for \<^verbatim>\<open>'shortBreak'\<close> and
  \<^verbatim>\<open>'longBreak'\<close>, so for such a list \<^verbatim>\<open>totalBreakTime\<close>, \<^verbatim>\<open>shortBreaks\<close> and
  \<^verbatim>\<open>longBreaks\<close> are 0, for every time range and either value of the flag.
\<close>

theorem C10_machine_entries_count_no_breaks:
  assumes "reachable uid es s" and "list_all producedType es"
  shows "list_all (\<lambda>e. type' e = ''work'' \<or> type' e = ''break'') (timeEntries s)
     \<and> (case currentSession s of
          None \<Rightarrow> True
        | Some c \<Rightarrow> type' c = ''work'' \<or> type' c = ''break'')
     \<and> Stats.totalBreakTime
          (stats formatDate dateTime starts (statisticsProps uid (timeEntries s)) timeRange
            showBreaks) = 0
     \<and> shortBreaks
          (stats formatDate dateTime starts (statisticsProps uid (timeEntries s)) timeRange
            showBreaks) = 0
     \<and> longBreaks
          (stats formatDate dateTime starts (statisticsProps uid (timeEntries s)) timeRange
            showBreaks) = 0"
proof -
  from assms have p: "producedTypes s" by (rule reachable_producedTypes)
  then have all: "list_all producedType (timeEntries s)"
    by (simp add: producedTypes_def)
  then have "list_all producedType (statisticsProps uid (timeEntries s))"
    by (simp add: statisticsProps_def producedType_filter)
  then have f: "list_all producedType
      (filterByRange starts timeRange (statisticsProps uid (timeEntries s)))"
    by (rule producedType_filterByRange)
  have 1: "list_all (\<lambda>e. type' e = ''work'' \<or> type' e = ''break'') (timeEntries s)"
    using all by (simp add: producedType_def [abs_def])
  have 2: "case currentSession s of
          None \<Rightarrow> True
        | Some c \<Rightarrow> type' c = ''work'' \<or> type' c = ''break''"
    using p by (simp add: producedTypes_def producedType_def split: option.splits)
  have 3: "Stats.totalBreakTime
          (stats formatDate dateTime starts (statisticsProps uid (timeEntries s)) timeRange
            showBreaks) = 0"
    by (simp add: stats_def Let_def producedType_no_break [OF f] sumDuration_def)
  have 4: "shortBreaks
          (stats formatDate dateTime starts (statisticsProps uid (timeEntries s)) timeRange
            showBreaks) = 0"
    by (simp add: stats_def Let_def producedType_no_break [OF f])
  have 5: "longBreaks
          (stats formatDate dateTime starts (statisticsProps uid (timeEntries s)) timeRange
            showBreaks) = 0"
    by (simp add: stats_def Let_def producedType_no_break [OF f])
  from 1 2 3 4 5 show ?thesis by blast
qed

text \<open>
  A run that records one break session of one second: the entry has type \<^verbatim>\<open>'break'\<close>, and
  the total break time of the statistics is 0.
\<close>

theorem C10_machine_entries_count_no_breaks_witness:
  "reachable ''u'' []
     (step (defaultSettings False ''u'') ''u'' 2000 Stop
       (step (defaultSettings False ''u'') ''u'' 1000 Tick
           (step (defaultSettings False ''u'') ''u'' 0 StartBreak (initialState []))))
   \<and> list_all producedType []
   \<and> timeEntries
       (step (defaultSettings False ''u'') ''u'' 2000 Stop
         (step (defaultSettings False ''u'') ''u'' 1000 Tick
           (step (defaultSettings False ''u'') ''u'' 0 StartBreak (initialState []))))
     = [\<lparr>id' = 0, startTime = 0, endTime = Some 2000, duration = 1, type' = ''break'',
         notes' = '''', userId = Some ''u''\<rparr>]
   \<and> Stats.totalBreakTime
       (stats (\<lambda>t. ''day'') (\<lambda>d. 0) \<lparr>today = 0, startOfWeek = 0, startOfMonth = 0\<rparr>
         (statisticsProps ''u''
           (timeEntries
             (step (defaultSettings False ''u'') ''u'' 2000 Stop
               (step (defaultSettings False ''u'') ''u'' 1000 Tick
                 (step (defaultSettings False ''u'') ''u'' 0 StartBreak (initialState []))))))
         AllTime True) = 0"
proof -
  let ?s = "step (defaultSettings False ''u'') ''u'' 2000 Stop
       (step (defaultSettings False ''u'') ''u'' 1000 Tick
           (step (defaultSettings False ''u'') ''u'' 0 StartBreak (initialState [])))"
  have r: "reachable ''u'' [] ?s"
    by (intro reach_step reach_init)
  have e: "list_all producedType []" by simp
  have t: "timeEntries ?s
     = [\<lparr>id' = 0, startTime = 0, endTime = Some 2000, duration = 1, type' = ''break'',
         notes' = '''', userId = Some ''u''\<rparr>]"
    by (simp add: startBreak_def stopTimer_def tick_def updatedSession_def newBreak_def
        initialState_def)
  from C10_machine_entries_count_no_breaks [OF r e, of "\<lambda>t. ''day''" "\<lambda>d. 0"
      "\<lparr>today = 0, startOfWeek = 0, startOfMonth = 0\<rparr>" AllTime True]
  have "Stats.totalBreakTime
       (stats (\<lambda>t. ''day'') (\<lambda>d. 0) \<lparr>today = 0, startOfWeek = 0, startOfMonth = 0\<rparr>
         (statisticsProps ''u'' (timeEntries ?s)) AllTime True) = 0"
    by blast
  with r e t show ?thesis by blast
qed

section \<open>The productivity score\<close>

lemma score_values:
  "productivityScore 1000 200 = 100" "productivityScore 1000 0 = 50" "productivityScore 0 0 = 0"
  by code_simp+

lemma saturated_score:
  "Math_round (jsMinus 100 (min (jsTimes (jsDivide (jsMinus 100 6) 4) 100) 50)) = 50"
  by code_simp

lemma Math_round_near:
  assumes "\<bar>a - b\<bar> < 1"
  shows "\<bar>Math_round a - Math_round b\<bar> \<le> 1"
proof -
  have "of_int \<lfloor>a + 1 / 2\<rfloor> \<le> a + 1 / 2" "a + 1 / 2 < of_int \<lfloor>a + 1 / 2\<rfloor> + 1"
    "of_int \<lfloor>b + 1 / 2\<rfloor> \<le> b + 1 / 2" "b + 1 / 2 < of_int \<lfloor>b + 1 / 2\<rfloor> + 1"
    by linarith+
  with assms have "(of_int \<lfloor>a + 1 / 2\<rfloor> :: rat) < of_int \<lfloor>b + 1 / 2\<rfloor> + 2"
    "(of_int \<lfloor>b + 1 / 2\<rfloor> :: rat) < of_int \<lfloor>a + 1 / 2\<rfloor> + 2"
    by linarith+
  then have "\<lfloor>a + 1 / 2\<rfloor> < \<lfloor>b + 1 / 2\<rfloor> + 2" "\<lfloor>b + 1 / 2\<rfloor> < \<lfloor>a + 1 / 2\<rfloor> + 2"
    by (simp_all only: of_int_less_iff [symmetric, where 'a = rat] of_int_add of_int_numeral)
  then show ?thesis by (simp add: Math_round_def)
qed

text \<open>The unrounded score of the code, as a function of the ratio it computed.\<close>

lemma productivityScore_of_ratio:
  assumes "\<not> (W = 0 \<and> B = 0)"
  shows "productivityScore W B =
    Math_round
      (if 4 \<le> workBreakRatio W B \<and> workBreakRatio W B \<le> 6 then 100
       else if 6 < workBreakRatio W B then
         jsMinus 100 (min (jsTimes (jsDivide (jsMinus (workBreakRatio W B) 6) 4) 100) 50)
       else if workBreakRatio W B < 4 \<and> 0 < workBreakRatio W B then
         max (jsTimes (jsDivide (workBreakRatio W B) 4) 100) 50
       else 0)"
  using assms by (auto simp: productivityScore_def Let_def)

text \<open>Above the band.\<close>

lemma above_band_saturated:
  assumes "8 \<le> r"
  shows "jsMinus 100 (min (jsTimes (jsDivide (jsMinus r 6) 4) 100) 50) = 50"
proof -
  have a: "2 \<le> jsMinus r 6"
    unfolding jsMinus_def using assms by (intro toDouble_ge_double) (simp_all add: doubles)
  have b: "1 / 2 \<le> jsDivide (jsMinus r 6) 4"
    unfolding jsDivide_def using a by (intro toDouble_ge_double) (simp_all add: doubles)
  have c: "50 \<le> jsTimes (jsDivide (jsMinus r 6) 4) 100"
    unfolding jsTimes_def using b by (intro toDouble_ge_double) (simp_all add: doubles)
  then have "min (jsTimes (jsDivide (jsMinus r 6) 4) 100) 50 = 50" by simp
  then show ?thesis by (simp add: jsMinus_def doubles)
qed

lemma above_band_near:
  assumes r: "6 < r" "r \<le> 8" and re: "\<bar>r - re\<bar> \<le> 8 * ulp53"
  shows "\<bar>jsMinus 100 (min (jsTimes (jsDivide (jsMinus r 6) 4) 100) 50)
          - (100 - min (((re - 6) / 4) * 100) 50)\<bar> \<le> 450 * ulp53"
proof -
  define a where "a = jsMinus r 6"
  define b where "b = jsDivide a 4"
  define c where "c = jsTimes b 100"
  define m where "m = min c 50"
  have x1: "0 < r - 6" "r - 6 \<le> 2" using r by simp_all
  have a0: "0 < a" unfolding a_def jsMinus_def using x1 by (intro toDouble_positive)
  have a2: "a \<le> 2"
    unfolding a_def jsMinus_def using x1 by (intro toDouble_le_double) (simp_all add: doubles)
  have ea: "\<bar>a - (r - 6)\<bar> \<le> 2 * ulp53"
    unfolding a_def jsMinus_def by (rule toDouble_error_le [OF x1])
  have x2: "0 < a / 4" "a / 4 \<le> 1 / 2" using a0 a2 by simp_all
  have b0: "0 < b" unfolding b_def jsDivide_def using x2 by (intro toDouble_positive)
  have b2: "b \<le> 1 / 2"
    unfolding b_def jsDivide_def using x2 by (intro toDouble_le_double) (simp_all add: doubles)
  have eb: "\<bar>b - a / 4\<bar> \<le> (1 / 2) * ulp53"
    unfolding b_def jsDivide_def by (rule toDouble_error_le [OF x2])
  have x3: "0 < b * 100" "b * 100 \<le> 50" using b0 b2 by simp_all
  have c0: "0 < c" unfolding c_def jsTimes_def using x3 by (intro toDouble_positive)
  have ec: "\<bar>c - b * 100\<bar> \<le> 50 * ulp53"
    unfolding c_def jsTimes_def by (rule toDouble_error_le [OF x3])
  have em: "\<bar>c - ((re - 6) / 4) * 100\<bar> \<le> 350 * ulp53"
  proof -
    have 1: "(re - 6) / 4 * 100 = 25 * re - 150" by simp
    have 2: "a / 4 = (1 / 4) * a" by simp
    show ?thesis unfolding 1 using ea eb [unfolded 2] ec re by linarith
  qed
  then have mm: "\<bar>m - min (((re - 6) / 4) * 100) 50\<bar> \<le> 350 * ulp53"
    unfolding m_def using ulp53_bounds by linarith
  have x4: "0 < 100 - m" "100 - m \<le> 100"
    using c0 by (simp_all add: m_def min_def)
  have es: "\<bar>jsMinus 100 m - (100 - m)\<bar> \<le> 100 * ulp53"
    unfolding jsMinus_def by (rule toDouble_error_le [OF x4])
  have "\<bar>jsMinus 100 m - (100 - min (((re - 6) / 4) * 100) 50)\<bar> \<le> 450 * ulp53"
    using es mm by linarith
  then show ?thesis by (simp add: m_def c_def b_def a_def)
qed

lemma below_band_near:
  assumes r: "0 < r" "r < 4" and re: "\<bar>r - re\<bar> \<le> 4 * ulp53"
  shows "\<bar>max (jsTimes (jsDivide r 4) 100) 50 - max ((re / 4) * 100) 50\<bar> \<le> 300 * ulp53"
proof -
  define b where "b = jsDivide r 4"
  define c where "c = jsTimes b 100"
  have x2: "0 < r / 4" "r / 4 \<le> 1" using r by simp_all
  have b0: "0 < b" unfolding b_def jsDivide_def using x2 by (intro toDouble_positive)
  have b2: "b \<le> 1"
    unfolding b_def jsDivide_def using x2 by (intro toDouble_le_double) (simp_all add: doubles)
  have eb: "\<bar>b - r / 4\<bar> \<le> 1 * ulp53"
    unfolding b_def jsDivide_def by (rule toDouble_error_le [OF x2])
  have x3: "0 < b * 100" "b * 100 \<le> 100" using b0 b2 by simp_all
  have ec: "\<bar>c - b * 100\<bar> \<le> 100 * ulp53"
    unfolding c_def jsTimes_def by (rule toDouble_error_le [OF x3])
  have "\<bar>c - (re / 4) * 100\<bar> \<le> 300 * ulp53"
  proof -
    have 1: "re / 4 * 100 = 25 * re" by simp
    have 2: "r / 4 = (1 / 4) * r" by simp
    show ?thesis unfolding 1 using eb [unfolded 2] ec re by linarith
  qed
  then have "\<bar>max c 50 - max ((re / 4) * 100) 50\<bar> \<le> 300 * ulp53"
    using ulp53_bounds by linarith
  then show ?thesis by (simp add: c_def b_def)
qed

lemma workBreakRatio_near:
  assumes "0 < W" and "0 < B"
  shows "workBreakRatio W B = toDouble (of_int W / of_int B)"
    and "0 < workBreakRatio W B"
    and "\<bar>workBreakRatio W B - of_int W / of_int B\<bar> \<le> (of_int W / of_int B) * ulp53"
proof -
  have pos: "(0::rat) < of_int W / of_int B" using assms by simp
  show 1: "workBreakRatio W B = toDouble (of_int W / of_int B)"
    using assms by (simp add: workBreakRatio_def jsDivide_def)
  show "0 < workBreakRatio W B" unfolding 1 by (rule toDouble_positive [OF pos])
  show "\<bar>workBreakRatio W B - of_int W / of_int B\<bar> \<le> (of_int W / of_int B) * ulp53"
    unfolding 1 by (rule toDouble_error_le [OF pos]) simp
qed

lemma ratio_compare:
  assumes "0 < B"
  shows "(of_int k \<le> (of_int W / of_int B :: rat)) = (k * B \<le> W)"
    and "((of_int W / of_int B :: rat) \<le> of_int k) = (W \<le> k * B)"
proof -
  have B: "(0::rat) < of_int B" using assms by simp
  have "(of_int k \<le> (of_int W / of_int B :: rat)) = ((of_int (k * B) :: rat) \<le> of_int W)"
    using B by (simp add: pos_le_divide_eq)
  then show "(of_int k \<le> (of_int W / of_int B :: rat)) = (k * B \<le> W)"
    by (simp only: of_int_le_iff)
  have "((of_int W / of_int B :: rat) \<le> of_int k) = ((of_int W :: rat) \<le> of_int (k * B))"
    using B by (simp add: pos_divide_le_eq)
  then show "((of_int W / of_int B :: rat) \<le> of_int k) = (W \<le> k * B)"
    by (simp only: of_int_le_iff)
qed

text \<open>
  The unrounded score of the code and the value of the exact formula are closer than
  \<open>450 / 2^53\<close>.
\<close>

lemma score_near_exact:
  assumes "0 < W" and "0 < B"
  shows "\<exists>sd se. productivityScore W B = Math_round sd
           \<and> exactFormula W B = Some se
           \<and> \<bar>sd - se\<bar> \<le> 450 * ulp53
           \<and> (4 * B \<le> W \<and> W \<le> 6 * B \<or> 8 * B \<le> W \<longrightarrow> sd = se)"
proof -
  define re :: rat where "re = of_int W / of_int B"
  define r where "r = workBreakRatio W B"
  have c4: "(4 \<le> re) = (4 * B \<le> W)" and c6: "(re \<le> 6) = (W \<le> 6 * B)"
    and c8: "(8 \<le> re) = (8 * B \<le> W)"
    using ratio_compare(1) [OF assms(2), of 4 W] ratio_compare(2) [OF assms(2), of W 6]
      ratio_compare(1) [OF assms(2), of 8 W]
    by (simp_all add: re_def)
  have re0: "0 < re" using assms by (simp add: re_def)
  have r: "r = toDouble re" and r0: "0 < r" and err: "\<bar>r - re\<bar> \<le> re * ulp53"
    using workBreakRatio_near [OF assms(1,2)] by (simp_all add: r_def re_def)
  have nz: "\<not> (W = 0 \<and> B = 0)" using assms by simp
  have code: "productivityScore W B =
    Math_round
      (if 4 \<le> r \<and> r \<le> 6 then 100
       else if 6 < r then jsMinus 100 (min (jsTimes (jsDivide (jsMinus r 6) 4) 100) 50)
       else if r < 4 \<and> 0 < r then max (jsTimes (jsDivide r 4) 100) 50
       else 0)"
    unfolding r_def by (rule productivityScore_of_ratio [OF nz])
  have exact: "exactFormula W B =
      (if 4 \<le> re \<and> re \<le> 6 then Some 100
       else if re > 6 then Some (100 - min (((re - 6) / 4) * 100) 50)
       else if 0 < re \<and> re < 4 then Some (max ((re / 4) * 100) 50)
       else None)"
    using assms by (simp add: exactFormula_def exactRatio_def Let_def re_def)
  note u = ulp53_bounds
  consider (high) "8 \<le> re" | (above) "6 < re" "re < 8" | (band) "4 \<le> re" "re \<le> 6"
    | (below) "re < 4"
    by linarith
  then show ?thesis
  proof cases
    case high
    then have "8 \<le> r" unfolding r by (intro toDouble_ge_double) (simp_all add: doubles)
    then have sd: "productivityScore W B = Math_round 50"
      by (simp add: code above_band_saturated)
    have "min (((re - 6) / 4) * 100) 50 = 50" using high by simp
    then have se: "exactFormula W B = Some 50" using high by (simp add: exact)
    from sd se u high show ?thesis by auto
  next
    case above
    have r8: "r \<le> 8"
      unfolding r using re0 above by (intro toDouble_le_double) (simp_all add: doubles)
    have r6: "6 \<le> r"
      unfolding r using above by (intro toDouble_ge_double) (simp_all add: doubles)
    have e8: "\<bar>r - re\<bar> \<le> 8 * ulp53"
    proof -
      have "re * ulp53 \<le> 8 * ulp53" using above u by (intro mult_right_mono) simp_all
      with err show ?thesis by linarith
    qed
    have se: "exactFormula W B = Some (100 - min (((re - 6) / 4) * 100) 50)"
      using above by (simp add: exact)
    have 1: "(re - 6) / 4 * 100 = 25 * re - 150" by simp
    show ?thesis
    proof (cases "r = 6")
      case True
      then have sd: "productivityScore W B = Math_round 100" by (simp add: code)
      have "\<bar>100 - (100 - min (((re - 6) / 4) * 100) 50)\<bar> \<le> 450 * ulp53"
        unfolding 1 using e8 True above u by linarith
      with sd se above c4 c6 c8 show ?thesis by auto
    next
      case False
      with r6 have r6': "6 < r" by simp
      then have sd: "productivityScore W B =
          Math_round (jsMinus 100 (min (jsTimes (jsDivide (jsMinus r 6) 4) 100) 50))"
        by (simp add: code)
      from above_band_near [OF r6' r8 e8] sd se above c4 c6 c8 show ?thesis by auto
    qed
  next
    case band
    have "4 \<le> r"
      unfolding r using band by (intro toDouble_ge_double) (simp_all add: doubles)
    moreover have "r \<le> 6"
      unfolding r using re0 band by (intro toDouble_le_double) (simp_all add: doubles)
    ultimately have sd: "productivityScore W B = Math_round 100" by (simp add: code)
    have se: "exactFormula W B = Some 100" using band by (simp add: exact)
    from sd se u show ?thesis by auto
  next
    case below
    have r4: "r \<le> 4"
      unfolding r using re0 below by (intro toDouble_le_double) (simp_all add: doubles)
    have e4: "\<bar>r - re\<bar> \<le> 4 * ulp53"
    proof -
      have "re * ulp53 \<le> 4 * ulp53" using below u by (intro mult_right_mono) simp_all
      with err show ?thesis by linarith
    qed
    have se: "exactFormula W B = Some (max ((re / 4) * 100) 50)"
      using below re0 by (simp add: exact)
    have 1: "re / 4 * 100 = 25 * re" by simp
    show ?thesis
    proof (cases "r = 4")
      case True
      then have sd: "productivityScore W B = Math_round 100" by (simp add: code)
      have "\<bar>100 - max ((re / 4) * 100) 50\<bar> \<le> 450 * ulp53"
        unfolding 1 using e4 True below u by linarith
      with sd se below c4 c6 c8 show ?thesis by auto
    next
      case False
      with r4 have r4': "r < 4" by simp
      then have sd: "productivityScore W B = Math_round (max (jsTimes (jsDivide r 4) 100) 50)"
        using r0 by (simp add: code)
      from below_band_near [OF r0 r4' e4] have
        "\<bar>max (jsTimes (jsDivide r 4) 100) 50 - max ((re / 4) * 100) 50\<bar> \<le> 450 * ulp53"
        using u by linarith
      with sd se below c4 c6 c8 show ?thesis by auto
    qed
  qed
qed

lemma Math_round_values: "Math_round 0 = 0" "Math_round 50 = 50" "Math_round 100 = 100"
  by code_simp+

lemma score_pinned:
  "productivityScore 23 10 = 57" "productivityScore 21 10 = 53" "productivityScore 79 10 = 52"
  by code_simp+

lemma exactScore_no_break:
  assumes "0 < W"
  shows "exactScore W 0 = Some 50"
  using assms by (simp add: exactScore_def exactFormula_def exactRatio_def Let_def Math_round_values)

lemma exactScore_near:
  assumes "0 \<le> W" and "0 \<le> B" and "exactScore W B = Some v"
  shows "\<bar>productivityScore W B - v\<bar> \<le> 1"
proof -
  consider (zero) "W = 0" "B = 0" | (nobreak) "0 < W" "B = 0" | (nowork) "W = 0" "0 < B"
    | (both) "0 < W" "0 < B"
    using assms(1,2) by linarith
  then show ?thesis
  proof cases
    case zero
    with assms(3) show ?thesis
      by (simp add: exactScore_def exactFormula_def productivityScore_def Math_round_values)
  next
    case nobreak
    with assms(3) exactScore_no_break [of W] have "v = 50" by simp
    moreover have "productivityScore W B = 50"
      using nobreak saturated_score
      by (auto simp: productivityScore_def workBreakRatio_def Let_def)
    ultimately show ?thesis by simp
  next
    case nowork
    then have "exactScore W B = None"
      by (simp add: exactScore_def exactFormula_def exactRatio_def Let_def)
    with assms(3) show ?thesis by simp
  next
    case both
    from score_near_exact [OF both] obtain sd se where
      sd: "productivityScore W B = Math_round sd" and se: "exactFormula W B = Some se"
      and near: "\<bar>sd - se\<bar> \<le> 450 * ulp53"
      by blast
    from se assms(3) have v: "v = Math_round se" by (simp add: exactScore_def)
    from near ulp53_bounds have "\<bar>sd - se\<bar> < 1" by linarith
    then show ?thesis unfolding sd v by (rule Math_round_near)
  qed
qed

lemma exactScore_equal:
  assumes "0 \<le> W" and "0 \<le> B"
    and "B = 0 \<or> 4 * B \<le> W \<and> W \<le> 6 * B \<or> 8 * B \<le> W"
  shows "exactScore W B = Some (productivityScore W B)"
proof -
  consider (zero) "W = 0" "B = 0" | (nobreak) "0 < W" "B = 0" | (both) "0 < W" "0 < B"
    using assms by (cases "B = 0"; cases "W = 0") auto
  then show ?thesis
  proof cases
    case zero
    then show ?thesis
      by (simp add: exactScore_def exactFormula_def productivityScore_def Math_round_values)
  next
    case nobreak
    moreover have "productivityScore W B = 50"
      using nobreak saturated_score
      by (auto simp: productivityScore_def workBreakRatio_def Let_def)
    ultimately show ?thesis using exactScore_no_break [of W] by simp
  next
    case both
    from score_near_exact [OF both] obtain sd se where
      sd: "productivityScore W B = Math_round sd" and se: "exactFormula W B = Some se"
      and eq: "4 * B \<le> W \<and> W \<le> 6 * B \<or> 8 * B \<le> W \<longrightarrow> sd = se"
      by blast
    from assms(3) both eq have "sd = se" by auto
    with sd se show ?thesis by (simp add: exactScore_def)
  qed
qed

text \<open>
  C6, as the code has it. For all non-negative totals \<open>W\<close> and \<open>B\<close>, the score is the
  piecewise formula, rounded by \<^verbatim>\<open>Math.round\<close>, with the arithmetic of the code, which is
  in doubles: 0 when both are 0; with the ratio the double nearest to \<open>W / B\<close> when
  \<open>B > 0\<close>, else 100 when \<open>W > 0\<close>, else 0, the score is 100 when the ratio is from 4 to
  6, \<open>100 - min (((ratio - 6) / 4) * 100) 50\<close> when it is above 6, and
  \<open>max ((ratio / 4) * 100) 50\<close> when it is between 0 and 4, each operation rounded to a
  double. The ratio has a relative error of at most \<open>2^-53\<close>. Where the exact formula
  has a value, the score differs from its rounded value by at most 1, and it is equal to
  it when there is no break time, when \<open>W / B\<close> is from 4 to 6, and when \<open>W / B\<close> is at
  least 8. The totals 1000 and 200 give 100, 1000 and 0 give 50, 0 and 0 give 0; 23 and 10
  give 57, 21 and 10 give 53.
\<close>

theorem C6_productivityScore_double_formula:
  assumes "0 \<le> W" and "0 \<le> B"
  shows "(W = 0 \<and> B = 0 \<longrightarrow> productivityScore W B = 0)
   \<and> workBreakRatio W B =
       (if B > 0 then jsDivide (of_int W) (of_int B) else if W > 0 then 100 else 0)
   \<and> (4 \<le> workBreakRatio W B \<and> workBreakRatio W B \<le> 6 \<longrightarrow> productivityScore W B = 100)
   \<and> (6 < workBreakRatio W B \<longrightarrow>
        productivityScore W B =
          Math_round
            (jsMinus 100 (min (jsTimes (jsDivide (jsMinus (workBreakRatio W B) 6) 4) 100) 50)))
   \<and> (0 < workBreakRatio W B \<and> workBreakRatio W B < 4 \<longrightarrow>
        productivityScore W B =
          Math_round (max (jsTimes (jsDivide (workBreakRatio W B) 4) 100) 50))
   \<and> (0 < W \<and> 0 < B \<longrightarrow>
        \<bar>workBreakRatio W B - of_int W / of_int B\<bar> \<le> (of_int W / of_int B) / 2 ^ 53)
   \<and> (exactScore W B = Some v \<longrightarrow> \<bar>productivityScore W B - v\<bar> \<le> 1)
   \<and> (B = 0 \<or> 4 * B \<le> W \<and> W \<le> 6 * B \<or> 8 * B \<le> W \<longrightarrow>
        exactScore W B = Some (productivityScore W B))
   \<and> productivityScore 1000 200 = 100
   \<and> productivityScore 1000 0 = 50
   \<and> productivityScore 0 0 = 0
   \<and> productivityScore 23 10 = 57
   \<and> productivityScore 21 10 = 53"
proof (intro conjI impI)
  show "productivityScore W B = 0" if "W = 0 \<and> B = 0"
    using that by (simp add: productivityScore_def)
  show "workBreakRatio W B =
       (if B > 0 then jsDivide (of_int W) (of_int B) else if W > 0 then 100 else 0)"
    by (simp add: workBreakRatio_def)
  have zero: "workBreakRatio W B = 0" if "W = 0 \<and> B = 0"
    using that by (simp add: workBreakRatio_def)
  show "productivityScore W B = 100" if "4 \<le> workBreakRatio W B \<and> workBreakRatio W B \<le> 6"
  proof -
    from that zero have "\<not> (W = 0 \<and> B = 0)" by auto
    then show ?thesis using that by (simp add: productivityScore_of_ratio Math_round_values)
  qed
  show "productivityScore W B =
          Math_round
            (jsMinus 100 (min (jsTimes (jsDivide (jsMinus (workBreakRatio W B) 6) 4) 100) 50))"
    if "6 < workBreakRatio W B"
  proof -
    from that zero have "\<not> (W = 0 \<and> B = 0)" by auto
    then show ?thesis using that by (simp add: productivityScore_of_ratio)
  qed
  show "productivityScore W B =
          Math_round (max (jsTimes (jsDivide (workBreakRatio W B) 4) 100) 50)"
    if "0 < workBreakRatio W B \<and> workBreakRatio W B < 4"
  proof -
    from that zero have "\<not> (W = 0 \<and> B = 0)" by auto
    then show ?thesis using that by (simp add: productivityScore_of_ratio)
  qed
  show "\<bar>workBreakRatio W B - of_int W / of_int B\<bar> \<le> (of_int W / of_int B) / 2 ^ 53"
    if "0 < W \<and> 0 < B"
    using workBreakRatio_near(3) [of W B] that by (simp add: ulp53_def)
  show "\<bar>productivityScore W B - v\<bar> \<le> 1" if "exactScore W B = Some v"
    using assms that by (rule exactScore_near)
  show "exactScore W B = Some (productivityScore W B)"
    if "B = 0 \<or> 4 * B \<le> W \<and> W \<le> 6 * B \<or> 8 * B \<le> W"
    using assms that by (rule exactScore_equal)
  show "productivityScore 1000 200 = 100" "productivityScore 1000 0 = 50"
    "productivityScore 0 0 = 0"
    by (rule score_values)+
  show "productivityScore 23 10 = 57" "productivityScore 21 10 = 53"
    by (rule score_pinned)+
qed

lemma ratio_values:
  "workBreakRatio 1000 200 = 5" "workBreakRatio 1000 0 = 100"
  "workBreakRatio 23 10 = 2589569785738035 / 1125899906842624"
  by code_simp+

lemma exact_values:
  "exactScore 1000 200 = Some 100" "exactScore 23 10 = Some 58"
  "exactFormula 21 10 = Some (105 / 2)" "exactFormula 79 10 = Some (105 / 2)"
  "exactScore 1000 0 = Some 50"
  by code_simp+

theorem C6_productivityScore_double_formula_witness:
  "(0::int) \<le> 1000 \<and> (0::int) \<le> 200 \<and> 4 * 200 \<le> (1000::int) \<and> (1000::int) \<le> 6 * 200
   \<and> exactScore 1000 200 = Some (productivityScore 1000 200)
   \<and> productivityScore 1000 200 = 100
   \<and> (0::int) \<le> 23 \<and> (0::int) \<le> 10
   \<and> exactScore 23 10 = Some 58
   \<and> \<bar>productivityScore 23 10 - 58\<bar> \<le> 1
   \<and> 0 < workBreakRatio 23 10 \<and> workBreakRatio 23 10 < 4
   \<and> productivityScore 23 10 =
       Math_round (max (jsTimes (jsDivide (workBreakRatio 23 10) 4) 100) 50)
   \<and> 6 < workBreakRatio 1000 0
   \<and> productivityScore 1000 0 =
       Math_round
         (jsMinus 100 (min (jsTimes (jsDivide (jsMinus (workBreakRatio 1000 0) 6) 4) 100) 50))"
proof -
  have a: "(0::int) \<le> 1000" "(0::int) \<le> 200" "(0::int) \<le> 23" "(0::int) \<le> 10" "(0::int) \<le> 0"
    by simp_all
  have band: "(200::int) = 0 \<or> 4 * 200 \<le> (1000::int) \<and> (1000::int) \<le> 6 * 200 \<or> 8 * 200 \<le> (1000::int)"
    by simp
  have e: "exactScore 23 10 = Some 58" by (rule exact_values)
  have c: "0 < workBreakRatio 23 10 \<and> workBreakRatio 23 10 < 4"
    by (simp add: ratio_values)
  have b: "6 < workBreakRatio 1000 0"
    by (simp add: ratio_values)
  note t1 = C6_productivityScore_double_formula [OF a(1) a(2)]
  note t2 = C6_productivityScore_double_formula [OF a(3) a(4), of 58]
  note t3 = C6_productivityScore_double_formula [OF a(1) a(5)]
  from t1 band have 1: "exactScore 1000 200 = Some (productivityScore 1000 200)" by blast
  from t1 have 2: "productivityScore 1000 200 = 100" by blast
  from t2 e have 3: "\<bar>productivityScore 23 10 - 58\<bar> \<le> 1" by blast
  from t2 c have 4: "productivityScore 23 10 =
       Math_round (max (jsTimes (jsDivide (workBreakRatio 23 10) 4) 100) 50)" by blast
  from t3 b have 5: "productivityScore 1000 0 =
       Math_round
         (jsMinus 100 (min (jsTimes (jsDivide (jsMinus (workBreakRatio 1000 0) 6) 4) 100) 50))"
    by blast
  from a 1 2 3 4 5 e c b show ?thesis by simp
qed

text \<open>
  The score is not the rounded value of the exact formula. For 23 seconds of work and 10
  of break the exact formula gives 57.5, rounded 58; the ratio of the code is the double
  nearest to 2.3, which is below 2.3, a quarter of it times 100 is the double
  57.49999999999999, and the score is 57. No other rule for the halves helps: for the
  totals 21 and 10 and for the totals 79 and 10 the exact formula gives the same value
  52.5, and the scores of the code are 53 and 52.
\<close>

theorem C6_exact_formula_counterexample:
  "exactScore 23 10 = Some 58
   \<and> productivityScore 23 10 = 57
   \<and> exactFormula 21 10 = Some (105 / 2)
   \<and> exactFormula 79 10 = Some (105 / 2)
   \<and> productivityScore 21 10 = 53
   \<and> productivityScore 79 10 = 52"
  by (simp add: exact_values score_pinned)

section \<open>The CSV export\<close>

lemma replaceCommas_no_comma: "CHR '','' \<notin> set (replaceCommas text)"
  by (auto simp: replaceCommas_def)

text \<open>
  C3, as the code has it. The first line of the export is the header
  \<^verbatim>\<open>Date,Start Time,End Time,Duration (minutes),Type,Notes\<close>, and one row follows for each
  entry of the list that the component received, in order: the export takes neither the
  time range nor the break flag. A row holds the date, the start time, the end time (empty
  without one), \<^verbatim>\<open>Math.round(duration / 60)\<close>, the type, and the notes with every comma
  replaced by a semicolon. For a duration from 0 to below \<open>2^52\<close> seconds the fourth
  field is the duration in minutes rounded to the nearest minute, a half up.
\<close>

theorem C3_export_rows_of_all_entries:
  "csvLines formatDate toLocaleTimeString entries =
     ''Date,Start Time,End Time,Duration (minutes),Type,Notes''
       # map (joinWith '','') (csvData formatDate toLocaleTimeString entries)
   \<and> exportToCSV formatDate toLocaleTimeString entries =
       joinWith [CHR 0x0A] (csvLines formatDate toLocaleTimeString entries)
   \<and> length (csvData formatDate toLocaleTimeString entries) = length entries
   \<and> (\<forall>i<length entries.
         csvData formatDate toLocaleTimeString entries ! i =
           [formatDate (startTime (entries ! i)),
            toLocaleTimeString (startTime (entries ! i)),
            (case endTime (entries ! i) of Some t \<Rightarrow> toLocaleTimeString t | None \<Rightarrow> ''''),
            numberToString (Math_round (jsDivide (of_int (duration (entries ! i))) 60)),
            type' (entries ! i),
            map (\<lambda>c. if c = CHR '','' then CHR '';'' else c) (notes' (entries ! i))]
         \<and> CHR '','' \<notin> set (csvData formatDate toLocaleTimeString entries ! i ! 5)
         \<and> (0 \<le> duration (entries ! i) \<and> duration (entries ! i) < 2 ^ 52 \<longrightarrow>
              csvData formatDate toLocaleTimeString entries ! i ! 3 =
                numberToString ((duration (entries ! i) + 30) div 60)))"
proof (intro conjI allI impI)
  show "csvLines formatDate toLocaleTimeString entries =
     ''Date,Start Time,End Time,Duration (minutes),Type,Notes''
       # map (joinWith '','') (csvData formatDate toLocaleTimeString entries)"
    by (simp add: csvLines_def headers_def)
  show "exportToCSV formatDate toLocaleTimeString entries =
       joinWith [CHR 0x0A] (csvLines formatDate toLocaleTimeString entries)"
    by (simp add: exportToCSV_def)
  show "length (csvData formatDate toLocaleTimeString entries) = length entries"
    by (simp add: csvData_def)
next
  fix i assume i: "i < length entries"
  then have row: "csvData formatDate toLocaleTimeString entries ! i =
      csvRow formatDate toLocaleTimeString (entries ! i)"
    by (simp add: csvData_def)
  show "csvData formatDate toLocaleTimeString entries ! i =
           [formatDate (startTime (entries ! i)),
            toLocaleTimeString (startTime (entries ! i)),
            (case endTime (entries ! i) of Some t \<Rightarrow> toLocaleTimeString t | None \<Rightarrow> ''''),
            numberToString (Math_round (jsDivide (of_int (duration (entries ! i))) 60)),
            type' (entries ! i),
            map (\<lambda>c. if c = CHR '','' then CHR '';'' else c) (notes' (entries ! i))]"
    by (simp add: row csvRow_def replaceCommas_def)
  show "CHR '','' \<notin> set (csvData formatDate toLocaleTimeString entries ! i ! 5)"
    using replaceCommas_no_comma [of "notes' (entries ! i)"] by (simp add: row csvRow_def)
  show "csvData formatDate toLocaleTimeString entries ! i ! 3 =
      numberToString ((duration (entries ! i) + 30) div 60)"
    if "0 \<le> duration (entries ! i) \<and> duration (entries ! i) < 2 ^ 52"
    using that by (simp add: row csvRow_def Math_round_minutes)
qed

lemma numberToString_2: "numberToString 2 = ''2''"
  by code_simp

lemma minutes_of_90: "Math_round (jsDivide 90 60) = 2"
  using Math_round_minutes [of 90] by simp

text \<open>
  A whole file, for one entry of 90 seconds with a comma in its notes.
\<close>

lemma export_sample:
  "exportToCSV (\<lambda>t. ''1/1/1970'') (\<lambda>t. ''1:00:00 AM'')
     [\<lparr>id' = 0, startTime = 0, endTime = Some 90000, duration = 90, type' = ''work'',
       notes' = ''a,b'', userId = Some ''u''\<rparr>]
   = ''Date,Start Time,End Time,Duration (minutes),Type,Notes'' @ [CHR 0x0A]
     @ ''1/1/1970,1:00:00 AM,1:00:00 AM,2,work,a;b''"
  by (simp add: exportToCSV_def csvLines_def csvData_def csvRow_def headers_def replaceCommas_def
      minutes_of_90 numberToString_2)

theorem C3_export_rows_of_all_entries_witness:
  "(0::nat) < length
       [\<lparr>id' = 0, startTime = 0, endTime = Some 90000, duration = 90, type' = ''work'',
         notes' = ''a,b'', userId = Some ''u''\<rparr>]
   \<and> (0::int) \<le> 90 \<and> (90::int) < 2 ^ 52
   \<and> csvData (\<lambda>t. ''1/1/1970'') (\<lambda>t. ''1:00:00 AM'')
       [\<lparr>id' = 0, startTime = 0, endTime = Some 90000, duration = 90, type' = ''work'',
         notes' = ''a,b'', userId = Some ''u''\<rparr>] ! 0 ! 3 = ''2''
   \<and> csvData (\<lambda>t. ''1/1/1970'') (\<lambda>t. ''1:00:00 AM'')
       [\<lparr>id' = 0, startTime = 0, endTime = Some 90000, duration = 90, type' = ''work'',
         notes' = ''a,b'', userId = Some ''u''\<rparr>] ! 0 ! 5 = ''a;b''"
proof -
  let ?es = "[\<lparr>id' = 0, startTime = 0, endTime = Some 90000, duration = 90, type' = ''work'',
         notes' = ''a,b'', userId = Some ''u''\<rparr>]"
  let ?rows = "csvData (\<lambda>t. ''1/1/1970'') (\<lambda>t. ''1:00:00 AM'') ?es"
  have i: "(0::nat) < length ?es" by simp
  have d: "0 \<le> duration (?es ! 0) \<and> duration (?es ! 0) < 2 ^ 52" by simp
  from C3_export_rows_of_all_entries [of "\<lambda>t. ''1/1/1970''" "\<lambda>t. ''1:00:00 AM''" ?es] i
  have row: "?rows ! 0 =
           [''1/1/1970'', ''1:00:00 AM'',
            (case endTime (?es ! 0) of Some t \<Rightarrow> ''1:00:00 AM'' | None \<Rightarrow> ''''),
            numberToString (Math_round (jsDivide (of_int (duration (?es ! 0))) 60)),
            type' (?es ! 0),
            map (\<lambda>c. if c = CHR '','' then CHR '';'' else c) (notes' (?es ! 0))]"
    and min: "0 \<le> duration (?es ! 0) \<and> duration (?es ! 0) < 2 ^ 52 \<longrightarrow>
              ?rows ! 0 ! 3 = numberToString ((duration (?es ! 0) + 30) div 60)"
    by blast+
  from min d have "?rows ! 0 ! 3 = numberToString ((duration (?es ! 0) + 30) div 60)"
    by blast
  then have 3: "?rows ! 0 ! 3 = ''2''"
    by (simp add: numberToString_2)
  from row have 5: "?rows ! 0 ! 5 = ''a;b''"
    by simp
  from i 3 5 show ?thesis by simp
qed

text \<open>
  One break entry, all time, breaks hidden: the displayed set is empty, and the export
  still has a row for the entry.
\<close>

theorem C3_displayed_set_counterexample:
  "length (csvData (\<lambda>t. ''1/1/1970'') (\<lambda>t. ''1:00:00 AM'')
     [\<lparr>id' = 0, startTime = 0, endTime = Some 90000, duration = 90, type' = ''break'',
       notes' = '''', userId = Some ''u''\<rparr>]) = 1
   \<and> filteredEntries
       (stats (\<lambda>t. ''1/1/1970'') (\<lambda>d. 0) \<lparr>today = 0, startOfWeek = 0, startOfMonth = 0\<rparr>
         [\<lparr>id' = 0, startTime = 0, endTime = Some 90000, duration = 90, type' = ''break'',
           notes' = '''', userId = Some ''u''\<rparr>] AllTime False) = []"
  by (simp add: csvData_def stats_def filterByRange_def isWork_def Let_def)

end
